theory Spec2Isabelle
  imports Complex_Main "HOL-Library.Char_ord" "HOL-Library.List_Lexorder" "HOL-Library.Log_Nat"
begin

section \<open>The FEC module of numma-loader.js\<close>

text \<open>
  The theory embeds the FEC (Fichier des Ecritures Comptables) functions of
  \<^verbatim>\<open>docs/modules/numma-loader.js\<close>: \<^verbatim>\<open>validateEntry\<close>, \<^verbatim>\<open>validateFECCompliance\<close>,
  \<^verbatim>\<open>generateFECFile\<close> and \<^verbatim>\<open>parseFECFile\<close>, together with the parts of the JavaScript
  runtime they call.

  Strings are lists of code units. The model covers the code units 0 to 255, the
  ISO-8859-1 range the FEC format is written in; a \<^typ>\<open>char\<close> is one such unit.
  The order on strings (\<^verbatim>\<open><\<close> on JavaScript strings, and the default order of
  \<^verbatim>\<open>Array.prototype.sort\<close>) is the lexicographic order on code units.
\<close>

subsection \<open>String operations of the runtime\<close>

text \<open>White space and line terminators that \<^verbatim>\<open>String.prototype.trim\<close> and \<^verbatim>\<open>parseFloat\<close>
  strip: TAB, LF, VT, FF, CR, SP and NBSP (the ones below code unit 256).\<close>

definition isWhiteSpace :: "char \<Rightarrow> bool" where
  "isWhiteSpace c = (of_char c \<in> set [9, 10, 11, 12, 13, 32, 160 :: int])"

definition trimStart :: "string \<Rightarrow> string" where
  "trimStart s = dropWhile isWhiteSpace s"

definition trimEnd :: "string \<Rightarrow> string" where
  "trimEnd s = rev (dropWhile isWhiteSpace (rev s))"

definition trim :: "string \<Rightarrow> string" where
  "trim s = trimEnd (trimStart s)"

text \<open>\<^verbatim>\<open>s.split(sep)\<close> for a one-character separator: never empty, \<^verbatim>\<open>''.split('|')\<close> is \<^verbatim>\<open>['']\<close>.\<close>

fun split_str :: "char \<Rightarrow> string \<Rightarrow> string list" where
  "split_str sep [] = [[]]"
| "split_str sep (c # cs) =
     (if c = sep then [] # split_str sep cs
      else (case split_str sep cs of r # rs \<Rightarrow> (c # r) # rs | [] \<Rightarrow> [[c]]))"

text \<open>\<^verbatim>\<open>content.split(/\r?\n/)\<close>: a line ends at LF or at CR LF; a CR alone stays in the line.\<close>

fun splitLines :: "string \<Rightarrow> string list" where
  "splitLines [] = [[]]"
| "splitLines [c] = (if c = CHR 0x0A then [[], []] else [[c]])"
| "splitLines (c # d # cs) =
     (if c = CHR 0x0A then [] # splitLines (d # cs)
      else if c = CHR 0x0D \<and> d = CHR 0x0A then [] # splitLines cs
      else (case splitLines (d # cs) of r # rs \<Rightarrow> (c # r) # rs | [] \<Rightarrow> [[c]]))"

text \<open>\<^verbatim>\<open>parts.join(sep)\<close>.\<close>

fun join :: "string \<Rightarrow> string list \<Rightarrow> string" where
  "join sep [] = []"
| "join sep [x] = x"
| "join sep (x # y # ys) = x @ sep @ join sep (y # ys)"

text \<open>\<^verbatim>\<open>s.replace(a, b)\<close> with one-character strings: only the first occurrence is replaced.\<close>

fun replaceFirst :: "char \<Rightarrow> char \<Rightarrow> string \<Rightarrow> string" where
  "replaceFirst a b [] = []"
| "replaceFirst a b (c # cs) = (if c = a then b # cs else c # replaceFirst a b cs)"

text \<open>\<^verbatim>\<open>s.replace(/\|/g, '')\<close>.\<close>

definition removePipes :: "string \<Rightarrow> string" where
  "removePipes s = filter (\<lambda>c. c \<noteq> CHR ''|'') s"

definition startsWith :: "string \<Rightarrow> string \<Rightarrow> bool" where
  "startsWith s p = (take (length p) s = p)"

definition isDigit :: "char \<Rightarrow> bool" where
  "isDigit c = (CHR ''0'' \<le> c \<and> c \<le> CHR ''9'')"

text \<open>Decimal digits of a non-negative integer, as \<^verbatim>\<open>String(n)\<close> writes it.\<close>

function digitsOf :: "int \<Rightarrow> string" where
  "digitsOf n = (if n < 10 then [char_of (48 + n)] else digitsOf (n div 10) @ [char_of (48 + n mod 10)])"
  by pat_completeness auto
termination
  by (relation "measure nat") auto

declare digitsOf.simps [simp del]

definition decimalValue :: "string \<Rightarrow> int" where
  "decimalValue ds = foldl (\<lambda>n c. 10 * n + (of_char c - 48)) 0 ds"

subsection \<open>Numbers of the runtime\<close>

text \<open>
  A JavaScript Number is an IEEE 754 double. A finite double is kept as the rational it
  denotes, and every operation rounds its exact result back to a double (to nearest,
  ties to even). The two zeros are one value: the functions below never tell them apart
  (\<^verbatim>\<open>-0 === 0\<close>, and \<^verbatim>\<open>(-0).toFixed(2)\<close> is \<^verbatim>\<open>"0.00"\<close>).
\<close>

datatype jsnum = NaN | PInf | NInf | Fin rat

definition pow2 :: "int \<Rightarrow> rat" where
  "pow2 k = (if 0 \<le> k then 2 ^ nat k else 1 / 2 ^ nat (- k))"

definition pow10 :: "int \<Rightarrow> rat" where
  "pow10 k = (if 0 \<le> k then 10 ^ nat k else 1 / 10 ^ nat (- k))"

text \<open>For \<open>a > 0\<close>, the integer \<open>e\<close> with \<open>2 ^ e \<le> a < 2 ^ (e + 1)\<close>.\<close>

definition ilog2 :: "rat \<Rightarrow> int" where
  "ilog2 a = (let (p, q) = quotient_of a; d = bitlen p - bitlen q
              in if pow2 d \<le> a then d else d - 1)"

definition roundHalfEven :: "rat \<Rightarrow> int" where
  "roundHalfEven x = (let n = \<lfloor>x\<rfloor>; r = x - of_int n
                      in if r < 1 / 2 then n else if 1 / 2 < r then n + 1
                         else if even n then n else n + 1)"

text \<open>The double nearest to a rational \<open>x\<close>: with \<open>2 ^ e \<le> \<bar>x\<bar> < 2 ^ (e + 1)\<close> it is the
  multiple \<open>n * 2 ^ (e - 52)\<close> nearest to \<open>\<bar>x\<bar>\<close> (53 significant bits); below
  \<open>e = - 1022\<close> the spacing stays \<open>2 ^ (- 1074)\<close>; and a result of \<open>2 ^ 1024\<close> or more,
  that is \<open>e > 1023\<close> or \<open>n = 2 ^ 53\<close> at \<open>e = 1023\<close>, is an infinity.\<close>

definition round64 :: "rat \<Rightarrow> jsnum" where
  "round64 x = (if x = 0 then Fin 0 else
     let a = \<bar>x\<bar>;
         e = max (ilog2 a) (- 1022);
         u = pow2 (e - 52);
         n = roundHalfEven (a / u)
     in if 1023 < e \<or> (e = 1023 \<and> n = 2 ^ 53) then (if x < 0 then NInf else PInf)
        else Fin (if x < 0 then - (of_int n * u) else of_int n * u))"

fun num_neg :: "jsnum \<Rightarrow> jsnum" where
  "num_neg NaN = NaN"
| "num_neg PInf = NInf"
| "num_neg NInf = PInf"
| "num_neg (Fin a) = Fin (- a)"

text \<open>\<^verbatim>\<open>a + b\<close> on Numbers.\<close>

fun num_add :: "jsnum \<Rightarrow> jsnum \<Rightarrow> jsnum" where
  "num_add (Fin a) (Fin b) = round64 (a + b)"
| "num_add NaN _ = NaN"
| "num_add _ NaN = NaN"
| "num_add PInf NInf = NaN"
| "num_add NInf PInf = NaN"
| "num_add PInf _ = PInf"
| "num_add _ PInf = PInf"
| "num_add NInf _ = NInf"
| "num_add _ NInf = NInf"

text \<open>\<^verbatim>\<open>a - b\<close> on Numbers.\<close>

definition num_sub :: "jsnum \<Rightarrow> jsnum \<Rightarrow> jsnum" where
  "num_sub a b = num_add a (num_neg b)"

text \<open>\<^verbatim>\<open>Math.abs\<close>.\<close>

fun num_abs :: "jsnum \<Rightarrow> jsnum" where
  "num_abs NaN = NaN"
| "num_abs PInf = PInf"
| "num_abs NInf = PInf"
| "num_abs (Fin a) = Fin \<bar>a\<bar>"

text \<open>\<^verbatim>\<open>a > b\<close> on Numbers: false as soon as one side is NaN.\<close>

fun num_gt :: "jsnum \<Rightarrow> jsnum \<Rightarrow> bool" where
  "num_gt (Fin a) (Fin b) = (b < a)"
| "num_gt NaN _ = False"
| "num_gt _ NaN = False"
| "num_gt PInf PInf = False"
| "num_gt PInf _ = True"
| "num_gt _ PInf = False"
| "num_gt NInf _ = False"
| "num_gt _ NInf = True"

definition isNaN :: "jsnum \<Rightarrow> bool" where
  "isNaN x = (x = NaN)"

subsubsection \<open>parseFloat\<close>

text \<open>
  \<^verbatim>\<open>parseFloat\<close> skips leading white space and reads the longest prefix that is a
  \<^verbatim>\<open>StrDecimalLiteral\<close>: an optional sign, then \<^verbatim>\<open>Infinity\<close> or digits with an optional
  fraction and an optional exponent. What follows the prefix is ignored; with no such
  prefix the result is NaN.
\<close>

text \<open>The value of an optional \<^verbatim>\<open>ExponentPart\<close> at the start of a string (0 when absent:
  an exponent indicator with no digit after it is not part of the literal).\<close>

definition parseExponent :: "string \<Rightarrow> int" where
  "parseExponent s =
     (case s of
        [] \<Rightarrow> 0
      | c # r \<Rightarrow>
          if c = CHR ''e'' \<or> c = CHR ''E'' then
            (case r of
               [] \<Rightarrow> 0
             | d # r' \<Rightarrow>
                 if d = CHR ''+'' then decimalValue (takeWhile isDigit r')
                 else if d = CHR ''-'' then - decimalValue (takeWhile isDigit r')
                 else decimalValue (takeWhile isDigit r))
          else 0)"

definition parseUnsigned :: "string \<Rightarrow> jsnum" where
  "parseUnsigned s =
     (if take 8 s = ''Infinity'' then PInf
      else
        let ip = takeWhile isDigit s;
            r1 = dropWhile isDigit s;
            dot = (r1 \<noteq> [] \<and> hd r1 = CHR ''.'');
            fp = (if dot then takeWhile isDigit (tl r1) else []);
            r2 = (if dot then dropWhile isDigit (tl r1) else r1)
        in if ip = [] \<and> fp = [] then NaN
           else round64 (of_int (decimalValue (ip @ fp)) * pow10 (parseExponent r2 - int (length fp))))"

definition parseFloat :: "string \<Rightarrow> jsnum" where
  "parseFloat s =
     (case trimStart s of
        [] \<Rightarrow> NaN
      | c # r \<Rightarrow>
          if c = CHR ''+'' then parseUnsigned r
          else if c = CHR ''-'' then num_neg (parseUnsigned r)
          else parseUnsigned (c # r))"

subsubsection \<open>Number.prototype.toFixed(2)\<close>

text \<open>The shortest decimal digits \<open>s\<close> (with their count \<open>k \<le> 17\<close>) that read back as the
  double \<open>a\<close>, for an integer-valued \<open>a\<close> of \<open>n\<close> digits: \<^verbatim>\<open>Number::toString\<close> takes the
  smallest \<open>k\<close>, then the \<open>s\<close> nearest to \<open>a\<close>, then the even one.\<close>

definition digitCandidates :: "rat \<Rightarrow> nat \<Rightarrow> nat \<Rightarrow> int list" where
  "digitCandidates a n k =
     (let f = \<lfloor>a / 10 ^ (n - k)\<rfloor>
      in filter (\<lambda>s. 10 ^ (k - 1) \<le> s \<and> s < 10 ^ k \<and> round64 (of_int s * 10 ^ (n - k)) = Fin a)
                [f, f + 1])"

definition pickDigits :: "rat \<Rightarrow> nat \<Rightarrow> nat \<Rightarrow> int list \<Rightarrow> int" where
  "pickDigits a n k cs =
     (case cs of
        [] \<Rightarrow> \<lfloor>a / 10 ^ (n - k)\<rfloor>
      | [s] \<Rightarrow> s
      | s # t # _ \<Rightarrow>
          let ds = a - of_int s * 10 ^ (n - k); dt = of_int t * 10 ^ (n - k) - a
          in if ds < dt then s else if dt < ds then t else if even s then s else t)"

text \<open>\<^verbatim>\<open>String(a)\<close> for a double \<open>a \<ge> 10 ^ 21\<close>: exponential notation, \<^verbatim>\<open>1e+21\<close>,
  \<^verbatim>\<open>1.5e+22\<close>.\<close>

definition expString :: "int \<Rightarrow> nat \<Rightarrow> string" where
  "expString s n =
     (let ds = digitsOf s
      in (if length ds = 1 then ds else take 1 ds @ ''.'' @ drop 1 ds) @ ''e+'' @ digitsOf (int n - 1))"

definition numberToString :: "rat \<Rightarrow> string" where
  "numberToString a =
     (let n = length (digitsOf \<lfloor>a\<rfloor>)
      in if round64 (10 ^ n) = Fin a then expString 1 (n + 1)
         else (case find (\<lambda>k. digitCandidates a n k \<noteq> []) [1 ..< 18] of
                 Some k \<Rightarrow> expString (pickDigits a n k (digitCandidates a n k)) n
               | None \<Rightarrow> expString (pickDigits a n 17 []) n))"

text \<open>Digits of \<open>n\<close> with a point before the last two, padded to at least three digits:
  \<open>5\<close> gives \<^verbatim>\<open>0.05\<close>.\<close>

definition fixed2 :: "int \<Rightarrow> string" where
  "fixed2 n =
     (let m = replicate (3 - length (digitsOf n)) (CHR ''0'') @ digitsOf n
      in take (length m - 2) m @ ''.'' @ drop (length m - 2) m)"

text \<open>\<^verbatim>\<open>x.toFixed(2)\<close>: the integer \<open>n\<close> with \<open>n / 100\<close> nearest to \<open>|x|\<close> (the larger of two),
  below \<open>10 ^ 21\<close>.\<close>

definition toFixed2 :: "jsnum \<Rightarrow> string" where
  "toFixed2 x =
     (case x of
        NaN \<Rightarrow> ''NaN''
      | PInf \<Rightarrow> ''Infinity''
      | NInf \<Rightarrow> ''-Infinity''
      | Fin q \<Rightarrow>
          (if q < 0 then ''-'' else []) @
          (if 10 ^ 21 \<le> \<bar>q\<bar> then numberToString \<bar>q\<bar>
           else fixed2 \<lfloor>\<bar>q\<bar> * 100 + 1 / 2\<rfloor>))"

subsection \<open>Configuration: \<^verbatim>\<open>FEC_CONFIG\<close>\<close>

text \<open>
  An entry is the object \<^verbatim>\<open>parseFECFile\<close> builds and its one caller (the FEC import) hands
  to \<^verbatim>\<open>validateFECCompliance\<close>: the 18 properties of \<^verbatim>\<open>FEC_CONFIG.FIELDS\<close>, each a
  string. An absent value is the empty string, which the code treats like a missing
  property wherever it tests \<^verbatim>\<open>entry[field]\<close> for truthiness.
\<close>

record fec_entry =
  JournalCode :: string
  JournalLib :: string
  EcritureNum :: string
  EcritureDate :: string
  CompteNum :: string
  CompteLib :: string
  CompAuxNum :: string
  CompAuxLib :: string
  PieceRef :: string
  PieceDate :: string
  EcritureLib :: string
  Debit :: string
  Credit :: string
  EcritureLet :: string
  DateLet :: string
  ValidDate :: string
  Montantdevise :: string
  Idevise :: string

text \<open>\<^verbatim>\<open>FEC_CONFIG.FIELDS\<close>, each name with the property access \<^verbatim>\<open>entry[field]\<close> it stands for.\<close>

definition FIELDS :: "(string \<times> (fec_entry \<Rightarrow> string)) list" where
  "FIELDS =
    [(''JournalCode'', JournalCode), (''JournalLib'', JournalLib), (''EcritureNum'', EcritureNum),
     (''EcritureDate'', EcritureDate), (''CompteNum'', CompteNum), (''CompteLib'', CompteLib),
     (''CompAuxNum'', CompAuxNum), (''CompAuxLib'', CompAuxLib), (''PieceRef'', PieceRef),
     (''PieceDate'', PieceDate), (''EcritureLib'', EcritureLib), (''Debit'', Debit),
     (''Credit'', Credit), (''EcritureLet'', EcritureLet), (''DateLet'', DateLet),
     (''ValidDate'', ValidDate), (''Montantdevise'', Montantdevise), (''Idevise'', Idevise)]"

text \<open>\<^verbatim>\<open>VALIDATION.DATE_FORMAT = /^\d{8}$/\<close>, used through \<^verbatim>\<open>test\<close>.\<close>

definition DATE_FORMAT :: "string \<Rightarrow> bool" where
  "DATE_FORMAT s = (length s = 8 \<and> list_all isDigit s)"

definition ACCOUNT_MIN_LENGTH :: nat where
  "ACCOUNT_MIN_LENGTH = 3"

definition ACCOUNT_MAX_LENGTH :: nat where
  "ACCOUNT_MAX_LENGTH = 20"

text \<open>The Number literals \<^verbatim>\<open>9999999999.99\<close> and \<^verbatim>\<open>0.01\<close> denote the nearest doubles.\<close>

definition MAX_AMOUNT :: jsnum where
  "MAX_AMOUNT = round64 (999999999999 / 100)"

definition BALANCE_TOLERANCE :: jsnum where
  "BALANCE_TOLERANCE = round64 (1 / 100)"

definition PCG_CLASSES :: "(string \<times> string) list" where
  "PCG_CLASSES =
    [(''1'', ''Comptes de capitaux''), (''2'', ''Comptes d'immobilisations''),
     (''3'', ''Comptes de stocks''), (''4'', ''Comptes de tiers''),
     (''5'', ''Comptes financiers''), (''6'', ''Comptes de charges''),
     (''7'', ''Comptes de produits''), (''8'', ''Comptes speciaux'')]"

definition JOURNAL_CODES :: "(string \<times> string) list" where
  "JOURNAL_CODES =
    [(''AC'', ''Achats''), (''VE'', ''Ventes''), (''BQ'', ''Banque''), (''CA'', ''Caisse''),
     (''OD'', ''Operations diverses''), (''AN'', ''A nouveau'')]"

subsection \<open>Objects used as dictionaries\<close>

text \<open>
  \<^verbatim>\<open>PCG_CLASSES\<close>, \<^verbatim>\<open>JOURNAL_CODES\<close> and the \<^verbatim>\<open>pieceRefs\<close> of the balance pass are object
  literals, so \<^verbatim>\<open>obj[key]\<close> also finds what every object inherits from
  \<^verbatim>\<open>Object.prototype\<close>: for these keys the lookup gives a function (or, for
  \<^verbatim>\<open>__proto__\<close>, the prototype itself), which is truthy.
\<close>

definition objectPrototypeNames :: "string list" where
  "objectPrototypeNames =
    [''constructor'', ''__defineGetter__'', ''__defineSetter__'', ''hasOwnProperty'',
     ''__lookupGetter__'', ''__lookupSetter__'', ''isPrototypeOf'', ''propertyIsEnumerable'',
     ''toString'', ''valueOf'', ''__proto__'', ''toLocaleString'']"

text \<open>Truthiness of \<^verbatim>\<open>obj[key]\<close> for an object literal whose own values are non-empty
  strings.\<close>

definition lookupTruthy :: "(string \<times> string) list \<Rightarrow> string \<Rightarrow> bool" where
  "lookupTruthy obj key = (key \<in> set (map fst obj) \<or> key \<in> set objectPrototypeNames)"

text \<open>An array index: the canonical decimal form of an integer below \<open>2 ^ 32 - 1\<close>.
  \<^verbatim>\<open>Object.entries\<close> lists such keys first, in ascending numeric order, and then the
  other keys in the order they were created.\<close>

definition isArrayIndex :: "string \<Rightarrow> bool" where
  "isArrayIndex s = (s \<noteq> [] \<and> list_all isDigit s \<and> (s = ''0'' \<or> CHR ''1'' \<le> hd s)
                     \<and> decimalValue s < 4294967295)"

definition objectEntries :: "(string \<times> 'a) list \<Rightarrow> (string \<times> 'a) list" where
  "objectEntries ps =
     sort_key (\<lambda>p. decimalValue (fst p)) (filter (\<lambda>p. isArrayIndex (fst p)) ps)
     @ filter (\<lambda>p. \<not> isArrayIndex (fst p)) ps"

subsection \<open>Issues and errors\<close>

text \<open>The exceptions the functions end with: the three \<^verbatim>\<open>Error\<close>s of \<^verbatim>\<open>parseFECFile\<close>
  (\<^verbatim>\<open>Fichier FEC vide\<close>; \<^verbatim>\<open>Fichier FEC invalide: moins de 2 lignes\<close>;
  \<^verbatim>\<open>Format FEC invalide: n colonnes au lieu de 18\<close>), the one of \<^verbatim>\<open>generateFECFile\<close>
  (\<^verbatim>\<open>Aucune ecriture a exporter\<close>), and the runtime's \<^verbatim>\<open>TypeError\<close>.\<close>

datatype error = EmptyFile | TooFewLines | BadHeader nat | NothingToExport | TypeError

datatype kind =
  EMPTY_FEC | ENTRY_INVALID | BALANCE_ERROR | DUPLICATE_NUM
  | CHRONOLOGY_WARNING | VAT_WARNING | UNKNOWN_JOURNAL

text \<open>The string the source writes into the \<^verbatim>\<open>type\<close> property of an issue.\<close>

fun kindName :: "kind \<Rightarrow> string" where
  "kindName EMPTY_FEC = ''EMPTY_FEC''"
| "kindName ENTRY_INVALID = ''ENTRY_INVALID''"
| "kindName BALANCE_ERROR = ''BALANCE_ERROR''"
| "kindName DUPLICATE_NUM = ''DUPLICATE_NUM''"
| "kindName CHRONOLOGY_WARNING = ''CHRONOLOGY_WARNING''"
| "kindName VAT_WARNING = ''VAT_WARNING''"
| "kindName UNKNOWN_JOURNAL = ''UNKNOWN_JOURNAL''"

text \<open>
  A message is kept as its template with the values the source interpolates:
  \<^item> \<open>NothingToValidate\<close>: \<^verbatim>\<open>Aucune ecriture a valider\<close>
  \<^item> \<open>MissingField f\<close>: \<^verbatim>\<open>Champ requis manquant: ${field}\<close>
  \<^item> \<open>BadDate d\<close>: \<^verbatim>\<open>Format de date invalide: ${entry.EcritureDate} (attendu: YYYYMMDD)\<close>
  \<^item> \<open>BadAccount a\<close>: \<^verbatim>\<open>Numero de compte invalide: ${entry.CompteNum}\<close>
  \<^item> \<open>BadClass c\<close>: \<^verbatim>\<open>Classe de compte invalide: ${accountClass}\<close>
  \<^item> \<open>BadDebit s\<close>, \<open>BadCredit s\<close>: \<^verbatim>\<open>Montant debit invalide: ${entry.Debit}\<close> and its twin
  \<^item> \<open>DebitTooHigh x\<close>, \<open>CreditTooHigh x\<close>: \<^verbatim>\<open>Debit trop eleve: ${debit}\<close> and its twin
  \<^item> \<open>BothZero\<close>: \<^verbatim>\<open>Au moins un montant (debit ou credit) doit etre non nul\<close>
  \<^item> \<open>BothSet\<close>: \<^verbatim>\<open>Debit et credit ne peuvent pas etre tous deux renseignes\<close>
  \<^item> \<open>Unbalanced r d c\<close>: \<^verbatim>\<open>Piece ${ref} desequilibree: Debit ${d.toFixed(2)} <> Credit ${c.toFixed(2)}\<close>
  \<^item> \<open>OutOfOrder n d n' d'\<close>: \<^verbatim>\<open>Ordre chronologique non respecte: ${n} (${d}) apres ${n'} (${d'})\<close>
  \<^item> \<open>Duplicate n\<close>: \<^verbatim>\<open>Numero d'ecriture duplique: ${n}\<close>
  \<^item> \<open>VatZero a\<close>: \<^verbatim>\<open>Compte TVA ${entry.CompteNum} avec montant nul\<close>
  \<^item> \<open>NonStandardJournal j\<close>: \<^verbatim>\<open>Code journal non standard: ${entry.JournalCode}\<close>
\<close>

datatype message =
  NothingToValidate
  | MissingField string
  | BadDate string
  | BadAccount string
  | BadClass string
  | BadDebit string
  | BadCredit string
  | DebitTooHigh jsnum
  | CreditTooHigh jsnum
  | BothZero
  | BothSet
  | Unbalanced string string string
  | OutOfOrder string string string string
  | Duplicate string
  | VatZero string
  | NonStandardJournal string

text \<open>An issue object; \<open>entry\<close> is \<open>None\<close> where the source sets no such property.\<close>

record issue =
  type :: kind
  message :: message
  entry :: "string option"

record report =
  valid :: bool
  errors :: "issue list"
  warnings :: "issue list"

subsection \<open>\<^verbatim>\<open>validateEntry\<close>\<close>

definition requiredFields :: "(string \<times> (fec_entry \<Rightarrow> string)) list" where
  "requiredFields =
    [(''JournalCode'', JournalCode), (''EcritureNum'', EcritureNum),
     (''EcritureDate'', EcritureDate), (''CompteNum'', CompteNum), (''CompteLib'', CompteLib),
     (''PieceRef'', PieceRef), (''EcritureLib'', EcritureLib)]"

text \<open>\<^verbatim>\<open>parseFloat(value || 0)\<close>: the empty string is falsy, and \<^verbatim>\<open>parseFloat(0)\<close> reads
  \<^verbatim>\<open>String(0)\<close>.\<close>

definition amountOf :: "string \<Rightarrow> jsnum" where
  "amountOf value = parseFloat (if value = [] then ''0'' else value)"

text \<open>The list \<^verbatim>\<open>errors\<close> of the result; its \<^verbatim>\<open>valid\<close> is \<^verbatim>\<open>errors.length === 0\<close>.
  Here \<open>d\<close> and \<open>c\<close> are the source's \<^verbatim>\<open>debit\<close> and \<^verbatim>\<open>credit\<close>.\<close>

definition validateEntry :: "fec_entry \<Rightarrow> message list" where
  "validateEntry e =
     (let d = amountOf (Debit e); c = amountOf (Credit e)
      in concat (map (\<lambda>(field, get). if get e = [] \<or> trim (get e) = [] then [MissingField field] else [])
                     requiredFields)
         @ (if EcritureDate e \<noteq> [] \<and> \<not> DATE_FORMAT (EcritureDate e) then [BadDate (EcritureDate e)] else [])
         @ (if CompteNum e \<noteq> [] then
              (if length (CompteNum e) < ACCOUNT_MIN_LENGTH \<or> ACCOUNT_MAX_LENGTH < length (CompteNum e)
               then [BadAccount (CompteNum e)] else [])
              @ (if \<not> lookupTruthy PCG_CLASSES [hd (CompteNum e)] then [BadClass [hd (CompteNum e)]] else [])
            else [])
         @ (if isNaN d then [BadDebit (Debit e)] else [])
         @ (if isNaN c then [BadCredit (Credit e)] else [])
         @ (if num_gt d MAX_AMOUNT then [DebitTooHigh d] else [])
         @ (if num_gt c MAX_AMOUNT then [CreditTooHigh c] else [])
         @ (if d = Fin 0 \<and> c = Fin 0 then [BothZero] else [])
         @ (if num_gt d (Fin 0) \<and> num_gt c (Fin 0) then [BothSet] else []))"

subsection \<open>\<^verbatim>\<open>validateFECCompliance\<close>\<close>

text \<open>1. Individual entry validation; \<open>index\<close> counts from 0.\<close>

text \<open>\<^verbatim>\<open>entry.EcritureNum || `Ligne ${index + 1}`\<close>.\<close>

definition entryTag :: "nat \<Rightarrow> fec_entry \<Rightarrow> string" where
  "entryTag index e =
     (if EcritureNum e \<noteq> [] then EcritureNum e else ''Ligne '' @ digitsOf (int index + 1))"

definition entryIssues :: "nat \<Rightarrow> fec_entry \<Rightarrow> issue list" where
  "entryIssues index e =
     map (\<lambda>err. \<lparr>type = ENTRY_INVALID, message = err, entry = Some (entryTag index e)\<rparr>)
         (validateEntry e)"

definition entryErrors :: "fec_entry list \<Rightarrow> issue list" where
  "entryErrors es = concat (map (\<lambda>(index, e). entryIssues index e) (enumerate 0 es))"

text \<open>2. Balance verification per \<^verbatim>\<open>PieceRef\<close>. The object \<^verbatim>\<open>pieceRefs\<close> is the list of its
  own properties in creation order.\<close>

record totals =
  debit :: jsnum
  credit :: jsnum
  entries :: "string list"

definition addToPiece :: "fec_entry \<Rightarrow> totals \<Rightarrow> totals" where
  "addToPiece e t = \<lparr>debit = num_add (debit t) (amountOf (Debit e)),
                     credit = num_add (credit t) (amountOf (Credit e)),
                     entries = entries t @ [EcritureNum e]\<rparr>"

definition updatePiece :: "fec_entry \<Rightarrow> (string \<times> totals) list \<Rightarrow> (string \<times> totals) list" where
  "updatePiece e ps =
     (if PieceRef e \<in> set (map fst ps)
      then map (\<lambda>(ref, t). if ref = PieceRef e then (ref, addToPiece e t) else (ref, t)) ps
      else ps @ [(PieceRef e, addToPiece e \<lparr>debit = Fin 0, credit = Fin 0, entries = []\<rparr>)])"

text \<open>
  For a \<^verbatim>\<open>PieceRef\<close> that names an inherited property, \<^verbatim>\<open>!pieceRefs[ref]\<close> is false and no
  totals object is created. The two \<^verbatim>\<open>+=\<close> then only set properties on the inherited
  value, and \<^verbatim>\<open>pieceRefs[ref].entries.push(...)\<close> fails: \<^verbatim>\<open>.entries\<close> is \<^verbatim>\<open>undefined\<close> there
  (for \<^verbatim>\<open>constructor\<close> it is the function \<^verbatim>\<open>Object.entries\<close>, which has no \<^verbatim>\<open>push\<close>). The
  function ends with a \<^verbatim>\<open>TypeError\<close> at the first such entry.
\<close>

fun collectPieces :: "fec_entry list \<Rightarrow> (string \<times> totals) list \<Rightarrow> error + (string \<times> totals) list" where
  "collectPieces [] ps = Inr ps"
| "collectPieces (e # es) ps =
     (if PieceRef e \<in> set objectPrototypeNames then Inl TypeError
      else collectPieces es (updatePiece e ps))"

definition balanceErrors :: "(string \<times> totals) list \<Rightarrow> issue list" where
  "balanceErrors pieceRefs =
     concat (map (\<lambda>(ref, t).
                    if num_gt (num_abs (num_sub (debit t) (credit t))) BALANCE_TOLERANCE
                    then [\<lparr>type = BALANCE_ERROR,
                           message = Unbalanced ref (toFixed2 (debit t)) (toFixed2 (credit t)),
                           entry = Some ref\<rparr>]
                    else [])
                 (objectEntries pieceRefs))"

text \<open>3. Chronological order verification. The pairs are the objects \<^verbatim>\<open>{date, num}\<close>, sorted
  with the comparator \<^verbatim>\<open>(a, b) => a.date.localeCompare(b.date)\<close>.

  \<^verbatim>\<open>localeCompare\<close> compares by the collation of the host's locale. On strings of ASCII
  digits, which is what an \<^verbatim>\<open>EcritureDate\<close> in the \<^verbatim>\<open>YYYYMMDD\<close> format is, every collation
  orders by code unit. How other strings collate is not fixed by the language; that part
  is the function \<open>hostCollation\<close>, about which nothing is assumed.\<close>

definition hostCollation :: "string \<Rightarrow> string \<Rightarrow> int" where
  "hostCollation = undefined"

definition localeCompare :: "string \<Rightarrow> string \<Rightarrow> int" where
  "localeCompare a b =
     (if list_all isDigit a \<and> list_all isDigit b
      then (if a < b then - 1 else if a = b then 0 else 1)
      else hostCollation a b)"

text \<open>\<^verbatim>\<open>Array.prototype.sort\<close> is stable. For a comparator that is a consistent order, as a
  collation is, the sorted array is the list that stable insertion builds: each element
  goes before the first one it does not come after.\<close>

fun insertDated :: "string \<times> string \<Rightarrow> (string \<times> string) list \<Rightarrow> (string \<times> string) list" where
  "insertDated a [] = [a]"
| "insertDated a (b # bs) =
     (if localeCompare (fst a) (fst b) \<le> 0 then a # b # bs else b # insertDated a bs)"

definition sortedDates :: "fec_entry list \<Rightarrow> (string \<times> string) list" where
  "sortedDates es = foldr insertDated (map (\<lambda>e. (EcritureDate e, EcritureNum e)) es) []"

text \<open>The loop over \<^verbatim>\<open>dates\<close>; \<open>prev\<close> is \<^verbatim>\<open>dates[index-1]\<close>, absent at index 0, and
  \<^verbatim>\<open>prevDate\<close> is its date.\<close>

fun chronologyScan :: "(string \<times> string) option \<Rightarrow> (string \<times> string) list \<Rightarrow> issue list" where
  "chronologyScan prev [] = []"
| "chronologyScan prev (item # rest) =
     (case prev of
        None \<Rightarrow> []
      | Some p \<Rightarrow>
          if fst item < fst p
          then [\<lparr>type = CHRONOLOGY_WARNING,
                 message = OutOfOrder (snd item) (fst item) (snd p) (fst p), entry = None\<rparr>]
          else [])
     @ chronologyScan (Some item) rest"

definition chronologyWarnings :: "fec_entry list \<Rightarrow> issue list" where
  "chronologyWarnings es = chronologyScan None (sortedDates es)"

text \<open>4. Sequence continuity check, on \<^verbatim>\<open>entries.map(e => e.EcritureNum).sort()\<close>.\<close>

fun duplicateScan :: "string list \<Rightarrow> issue list" where
  "duplicateScan (a # b # rest) =
     (if b = a then [\<lparr>type = DUPLICATE_NUM, message = Duplicate b, entry = None\<rparr>] else [])
     @ duplicateScan (b # rest)"
| "duplicateScan _ = []"

definition duplicateErrors :: "fec_entry list \<Rightarrow> issue list" where
  "duplicateErrors es = duplicateScan (sort (map EcritureNum es))"

text \<open>5. VAT account validation: \<^verbatim>\<open>parseFloat(entry.Debit || entry.Credit || 0)\<close> reads the
  first of the two strings that is not empty.\<close>

definition vatWarnings :: "fec_entry list \<Rightarrow> issue list" where
  "vatWarnings es =
     concat (map (\<lambda>e.
                    if CompteNum e \<noteq> [] \<and> startsWith (CompteNum e) ''445''
                    then (let amount = parseFloat (if Debit e \<noteq> [] then Debit e
                                                   else if Credit e \<noteq> [] then Credit e else ''0'')
                          in if amount = Fin 0
                             then [\<lparr>type = VAT_WARNING, message = VatZero (CompteNum e),
                                    entry = Some (EcritureNum e)\<rparr>]
                             else [])
                    else [])
                 es)"

text \<open>6. Journal code validation.\<close>

definition journalWarnings :: "fec_entry list \<Rightarrow> issue list" where
  "journalWarnings es =
     concat (map (\<lambda>e.
                    if JournalCode e \<noteq> [] \<and> \<not> lookupTruthy JOURNAL_CODES (JournalCode e)
                    then [\<lparr>type = UNKNOWN_JOURNAL, message = NonStandardJournal (JournalCode e),
                           entry = Some (EcritureNum e)\<rparr>]
                    else [])
                 es)"

definition validateFECCompliance :: "fec_entry list \<Rightarrow> error + report" where
  "validateFECCompliance es =
     (if es = []
      then Inr \<lparr>valid = False,
                errors = [\<lparr>type = EMPTY_FEC, message = NothingToValidate, entry = None\<rparr>],
                warnings = []\<rparr>
      else
        (case collectPieces es [] of
           Inl err \<Rightarrow> Inl err
         | Inr pieceRefs \<Rightarrow>
             let errs = entryErrors es @ balanceErrors pieceRefs @ duplicateErrors es;
                 warns = chronologyWarnings es @ vatWarnings es @ journalWarnings es
             in Inr \<lparr>valid = (errs = []), errors = errs, warnings = warns\<rparr>))"

subsection \<open>\<^verbatim>\<open>generateFECFile\<close> and \<^verbatim>\<open>parseFECFile\<close>\<close>

definition isAmountField :: "string \<Rightarrow> bool" where
  "isAmountField field = (field = ''Debit'' \<or> field = ''Credit'' \<or> field = ''Montantdevise'')"

text \<open>\<^verbatim>\<open>parseFloat(value || 0).toFixed(2).replace('.', ',')\<close>.\<close>

definition formatAmount :: "string \<Rightarrow> string" where
  "formatAmount value = replaceFirst (CHR ''.'') (CHR '','') (toFixed2 (amountOf value))"

text \<open>The value written for one field of one entry.\<close>

definition fieldText :: "fec_entry \<Rightarrow> string \<times> (fec_entry \<Rightarrow> string) \<Rightarrow> string" where
  "fieldText e = (\<lambda>(field, get).
     removePipes (if isAmountField field then formatAmount (get e) else get e))"

definition entryLine :: "fec_entry \<Rightarrow> string" where
  "entryLine e = join ''|'' (map (fieldText e) FIELDS)"

definition CRLF :: string where
  "CRLF = [CHR 0x0D, CHR 0x0A]"

definition generateFECFile :: "fec_entry list \<Rightarrow> error + string" where
  "generateFECFile es =
     (if es = [] then Inl NothingToExport
      else Inr (join CRLF (join ''|'' (map fst FIELDS) # map entryLine es)))"

text \<open>The value stored for one column of one line.\<close>

definition cellValue :: "string \<Rightarrow> string \<Rightarrow> string" where
  "cellValue field raw =
     (if isAmountField field then replaceFirst (CHR '','') (CHR ''.'') (trim raw) else trim raw)"

text \<open>The entry object filled from the 18 values of a line, in the order of \<^verbatim>\<open>FIELDS\<close>.\<close>

definition entryOfValues :: "string list \<Rightarrow> fec_entry" where
  "entryOfValues vs =
     (let cs = map (\<lambda>(field, raw). cellValue field raw) (zip (map fst FIELDS) vs)
      in \<lparr>JournalCode = cs ! 0, JournalLib = cs ! 1, EcritureNum = cs ! 2, EcritureDate = cs ! 3,
          CompteNum = cs ! 4, CompteLib = cs ! 5, CompAuxNum = cs ! 6, CompAuxLib = cs ! 7,
          PieceRef = cs ! 8, PieceDate = cs ! 9, EcritureLib = cs ! 10, Debit = cs ! 11,
          Credit = cs ! 12, EcritureLet = cs ! 13, DateLet = cs ! 14, ValidDate = cs ! 15,
          Montantdevise = cs ! 16, Idevise = cs ! 17\<rparr>)"

text \<open>The lines kept by \<^verbatim>\<open>content.split(/\r?\n/).filter(line => line.trim() !== '')\<close>.\<close>

definition nonBlankLines :: "string \<Rightarrow> string list" where
  "nonBlankLines content = filter (\<lambda>line. trim line \<noteq> []) (splitLines content)"

definition parseFECFile :: "string \<Rightarrow> error + fec_entry list" where
  "parseFECFile content =
     (if content = [] \<or> trim content = [] then Inl EmptyFile
      else
        let lines = nonBlankLines content
        in if length lines < 2 then Inl TooFewLines
           else
             let header = split_str (CHR ''|'') (hd lines)
             in if length header \<noteq> length FIELDS then Inl (BadHeader (length header))
                else Inr (concat (map (\<lambda>line.
                                         let values = split_str (CHR ''|'') line
                                         in if length values \<noteq> length FIELDS then []
                                            else [entryOfValues values])
                                      (tl lines))))"

section \<open>Notions used in the statements\<close>

text \<open>A string is trimmed when white space neither starts nor ends it.\<close>

definition trimmed :: "string \<Rightarrow> bool" where
  "trimmed s = (s = [] \<or> (\<not> isWhiteSpace (hd s) \<and> \<not> isWhiteSpace (last s)))"

text \<open>The characters \<^verbatim>\<open>toFixed(2)\<close> writes: digits, sign, point, the exponent of large
  numbers, and the letters of \<^verbatim>\<open>NaN\<close> and \<^verbatim>\<open>Infinity\<close>.\<close>

definition amountChars :: "char set" where
  "amountChars = set ''0123456789-.e+NaInfity''"

text \<open>A value that the file format carries unchanged: no field delimiter, no line feed,
  and trimmed.\<close>

definition clean :: "string \<Rightarrow> bool" where
  "clean s = (CHR ''|'' \<notin> set s \<and> CHR 0x0A \<notin> set s \<and> trimmed s)"

definition cleanEntry :: "fec_entry \<Rightarrow> bool" where
  "cleanEntry e = list_all (\<lambda>(field, get). isAmountField field \<or> clean (get e)) FIELDS"

text \<open>The entry with its three amounts rewritten as \<^verbatim>\<open>toFixed(2)\<close> writes them.\<close>

definition normalizeAmounts :: "fec_entry \<Rightarrow> fec_entry" where
  "normalizeAmounts e =
     e\<lparr>Debit := toFixed2 (amountOf (Debit e)), Credit := toFixed2 (amountOf (Credit e)),
       Montantdevise := toFixed2 (amountOf (Montantdevise e))\<rparr>"

text \<open>
  The conditions of the parser's contract, in the words of the specification and
  without the functions of the code. The lines of a text: it is cut at every line feed,
  and a line that ends at a line feed loses one carriage return before it.
\<close>

definition stripCR :: "string \<Rightarrow> string" where
  "stripCR l = (if l \<noteq> [] \<and> last l = CHR 0x0D then butlast l else l)"

function spec_lines :: "string \<Rightarrow> string list" where
  "spec_lines s =
     (if CHR 0x0A \<in> set s
      then stripCR (takeWhile (\<lambda>c. c \<noteq> CHR 0x0A) s)
           # spec_lines (tl (dropWhile (\<lambda>c. c \<noteq> CHR 0x0A) s))
      else [s])"
  by pat_completeness auto
termination
proof (relation "measure length")
  fix s :: string
  assume "CHR 0x0A \<in> set s"
  then have "dropWhile (\<lambda>c. c \<noteq> CHR 0x0A) s \<noteq> []"
    by (simp add: dropWhile_eq_Nil_conv)
  then have "length (tl (dropWhile (\<lambda>c. c \<noteq> CHR 0x0A) s)) < length (dropWhile (\<lambda>c. c \<noteq> CHR 0x0A) s)"
    by simp
  also have "\<dots> \<le> length s" by (rule length_dropWhile_le)
  finally show "(tl (dropWhile (\<lambda>c. c \<noteq> CHR 0x0A) s), s) \<in> measure length" by simp
qed simp

declare spec_lines.simps [simp del]

text \<open>A blank line has white space only; the non-blank lines are the others, in order.\<close>

definition spec_nonBlankLines :: "string \<Rightarrow> string list" where
  "spec_nonBlankLines content = filter (\<lambda>l. \<not> list_all isWhiteSpace l) (spec_lines content)"

text \<open>The number of columns of a line: one more than it has delimiters.\<close>

definition spec_columns :: "string \<Rightarrow> nat" where
  "spec_columns l = Suc (count_list l (CHR ''|''))"

text \<open>The errors the specification calls \<^verbatim>\<open>FormatError\<close>: empty file, too few lines, wrong
  number of header columns.\<close>

fun FormatError :: "error \<Rightarrow> bool" where
  "FormatError EmptyFile = True"
| "FormatError TooFewLines = True"
| "FormatError (BadHeader n) = True"
| "FormatError NothingToExport = False"
| "FormatError TypeError = False"

text \<open>No \<^verbatim>\<open>PieceRef\<close> of the ledger names a property that objects inherit.\<close>

definition ownPieceRefs :: "fec_entry list \<Rightarrow> bool" where
  "ownPieceRefs es = list_all (\<lambda>e. PieceRef e \<notin> set objectPrototypeNames) es"

text \<open>The totals of a piece as the balance pass accumulates them: the Number sums, in
  ledger order and from 0, over the entries with that \<^verbatim>\<open>PieceRef\<close>.\<close>

definition debitSum :: "string \<Rightarrow> fec_entry list \<Rightarrow> jsnum" where
  "debitSum ref es = foldl num_add (Fin 0) (map (\<lambda>e. amountOf (Debit e)) (filter (\<lambda>e. PieceRef e = ref) es))"

definition creditSum :: "string \<Rightarrow> fec_entry list \<Rightarrow> jsnum" where
  "creditSum ref es = foldl num_add (Fin 0) (map (\<lambda>e. amountOf (Credit e)) (filter (\<lambda>e. PieceRef e = ref) es))"

subsection \<open>Sample ledgers\<close>

text \<open>A sale of 1000.00 (the line \<^verbatim>\<open>VE|Ventes|1|20240115|707000|Ventes|||F001|20240115|Vente
  marchandise|0,00|1000,00|||20240116||\<close> as \<^verbatim>\<open>parseFECFile\<close> reads it) and the customer
  entry that balances it.\<close>

definition sale :: fec_entry where
  "sale = \<lparr>JournalCode = ''VE'', JournalLib = ''Ventes'', EcritureNum = ''1'',
            EcritureDate = ''20240115'', CompteNum = ''707000'', CompteLib = ''Ventes'',
            CompAuxNum = [], CompAuxLib = [], PieceRef = ''F001'', PieceDate = ''20240115'',
            EcritureLib = ''Vente marchandise'', Debit = ''0.00'', Credit = ''1000.00'',
            EcritureLet = [], DateLet = [], ValidDate = ''20240116'', Montantdevise = [],
            Idevise = []\<rparr>"

definition customer :: fec_entry where
  "customer = sale\<lparr>EcritureNum := ''2'', CompteNum := ''411000'', CompteLib := ''Clients'',
                   Debit := ''1000.00'', Credit := ''0.00''\<rparr>"

definition headerLine :: string where
  "headerLine =
     ''JournalCode|JournalLib|EcritureNum|EcritureDate|CompteNum|CompteLib|CompAuxNum|CompAuxLib|PieceRef|PieceDate|EcritureLib|Debit|Credit|EcritureLet|DateLet|ValidDate|Montantdevise|Idevise''"

definition saleLine :: string where
  "saleLine =
     ''VE|Ventes|1|20240115|707000|Ventes|||F001|20240115|Vente marchandise|0,00|1000,00|||20240116|0,00|''"

definition customerLine :: string where
  "customerLine =
     ''VE|Ventes|2|20240115|411000|Clients|||F001|20240115|Vente marchandise|1000,00|0,00|||20240116|0,00|''"

text \<open>The customer line with its last column missing: 17 fields.\<close>

definition shortLine :: string where
  "shortLine =
     ''VE|Ventes|2|20240115|411000|Clients|||F001|20240115|Vente marchandise|1000,00|0,00|||20240116|0,00''"

definition saleFile :: string where
  "saleFile = headerLine @ CRLF @ saleLine @ CRLF @ customerLine"

definition shortLineFile :: string where
  "shortLineFile = headerLine @ CRLF @ saleLine @ CRLF @ shortLine"

text \<open>A header followed by a line of blanks, and the sale file with a 19-column line
  (one delimiter more) between its two data lines.\<close>

definition headerOnlyFile :: string where
  "headerOnlyFile = headerLine @ CRLF @ ''   '' @ CRLF"

definition longLineFile :: string where
  "longLineFile = headerLine @ CRLF @ saleLine @ [CHR 0x0A] @ customerLine @ ''|'' @ CRLF
                  @ CRLF @ customerLine"

text \<open>The sale entered one day after the customer entry that follows it.\<close>

definition lateSale :: fec_entry where
  "lateSale = sale\<lparr>EcritureDate := ''20240116''\<rparr>"

text \<open>A sale with VAT: 1000.00 and 200.00 credited, 1200.00 debited.\<close>

definition vatLine :: fec_entry where
  "vatLine = sale\<lparr>EcritureNum := ''3'', CompteNum := ''445710'', CompteLib := ''TVA collectee'',
                  Debit := ''0.00'', Credit := ''200.00''\<rparr>"

definition vatLedger :: "fec_entry list" where
  "vatLedger = [sale, vatLine, customer\<lparr>Debit := ''1200.00''\<rparr>]"

text \<open>Two entries with negative amounts that balance.\<close>

definition negativeLedger :: "fec_entry list" where
  "negativeLedger = [sale\<lparr>Debit := ''-5'', Credit := []\<rparr>, customer\<lparr>Debit := [], Credit := ''-5''\<rparr>]"

text \<open>The balanced pair with the journal label of the sale left empty.\<close>

definition unlabelledLedger :: "fec_entry list" where
  "unlabelledLedger = [sale\<lparr>JournalLib := []\<rparr>, customer]"

text \<open>Ledgers whose piece is named after a property every object inherits.\<close>

definition constructorLedger :: "fec_entry list" where
  "constructorLedger = [sale\<lparr>PieceRef := ''constructor''\<rparr>]"

definition toStringLedger :: "fec_entry list" where
  "toStringLedger = [sale\<lparr>PieceRef := ''toString''\<rparr>,
                     customer\<lparr>PieceRef := ''toString'', EcritureNum := ''1''\<rparr>]"

text \<open>An entry with no amount, and an entry with no number.\<close>

definition zeroLedger :: "fec_entry list" where
  "zeroLedger = [sale\<lparr>Credit := ''0.00''\<rparr>]"

definition unnumberedLedger :: "fec_entry list" where
  "unnumberedLedger = [sale, customer\<lparr>EcritureNum := []\<rparr>]"

text \<open>An entry whose debit is not a number, with no credit.\<close>

definition garbledLedger :: "fec_entry list" where
  "garbledLedger = [sale\<lparr>Debit := ''abc'', Credit := []\<rparr>]"

section \<open>Properties\<close>

subsection \<open>Splitting and joining\<close>

lemma split_str_not_Nil: "split_str sep s \<noteq> []"
  by (induction s) (auto split: list.splits)

lemma split_str_plain: "sep \<notin> set f \<Longrightarrow> split_str sep f = [f]"
  by (induction f) auto

lemma split_str_append:
  "sep \<notin> set f \<Longrightarrow> split_str sep (f @ sep # rest) = f # split_str sep rest"
  by (induction f) auto

lemma split_str_join:
  "fs \<noteq> [] \<Longrightarrow> \<forall>f \<in> set fs. sep \<notin> set f \<Longrightarrow> split_str sep (join [sep] fs) = fs"
proof (induction "[sep]" fs rule: join.induct)
  case 1
  then show ?case by simp
next
  case (2 x)
  then show ?case by (simp add: split_str_plain)
next
  case (3 x y ys)
  then show ?case by (simp add: split_str_append)
qed

lemma length_split_str: "length (split_str sep s) = Suc (count_list s sep)"
  by (induction s) (auto split: list.splits simp: split_str_not_Nil)

lemma splitLines_not_Nil: "splitLines s \<noteq> []"
  by (induction s rule: splitLines.induct) (auto split: list.splits)

lemma splitLines_plain: "CHR 0x0A \<notin> set l \<Longrightarrow> splitLines l = [l]"
  by (induction l rule: splitLines.induct) auto

lemma splitLines_append:
  "CHR 0x0A \<notin> set l \<Longrightarrow> splitLines (l @ CHR 0x0D # CHR 0x0A # rest) = l # splitLines rest"
proof (induction l)
  case Nil
  then show ?case by simp
next
  case (Cons c l)
  show ?case
  proof (cases l)
    case Nil
    with Cons.prems show ?thesis by simp
  next
    case (Cons d l')
    with Cons.prems Cons.IH show ?thesis by auto
  qed
qed

lemma splitLines_join:
  "ls \<noteq> [] \<Longrightarrow> \<forall>l \<in> set ls. CHR 0x0A \<notin> set l \<Longrightarrow> splitLines (join CRLF ls) = ls"
proof (induction CRLF ls rule: join.induct)
  case 1
  then show ?case by simp
next
  case (2 x)
  then show ?case by (simp add: splitLines_plain)
next
  case (3 x y ys)
  then show ?case by (simp add: splitLines_append CRLF_def)
qed

subsection \<open>Trimming and replacing\<close>

lemma dropWhile_all_iff: "(\<forall>x \<in> set (dropWhile P s). P x) \<longleftrightarrow> (\<forall>x \<in> set s. P x)"
  by (induction s) auto

lemma trim_empty_iff: "trim s = [] \<longleftrightarrow> list_all isWhiteSpace s"
  by (simp add: trim_def trimStart_def trimEnd_def list_all_iff dropWhile_all_iff)

lemma trimEnd_id: "s \<noteq> [] \<Longrightarrow> \<not> isWhiteSpace (last s) \<Longrightarrow> trimEnd s = s"
  unfolding trimEnd_def using dropWhile_eq_self_iff [of isWhiteSpace "rev s"]
  by (simp add: hd_rev)

lemma trim_id: "trimmed s \<Longrightarrow> trim s = s"
proof (cases s)
  case Nil
  then show ?thesis by (simp add: trim_def trimStart_def trimEnd_def)
next
  case (Cons a list)
  assume "trimmed s"
  with Cons have h: "\<not> isWhiteSpace a" and l: "\<not> isWhiteSpace (last s)"
    by (auto simp: trimmed_def)
  from h Cons have "trimStart s = s" by (simp add: trimStart_def)
  moreover from l Cons have "trimEnd s = s" by (intro trimEnd_id) auto
  ultimately show ?thesis by (simp add: trim_def)
qed

lemma removePipes_id: "CHR ''|'' \<notin> set s \<Longrightarrow> removePipes s = s"
  by (auto simp: removePipes_def filter_id_conv)

lemma removePipes_free: "CHR ''|'' \<notin> set (removePipes s)"
  by (simp add: removePipes_def)

lemma replaceFirst_absent: "a \<notin> set s \<Longrightarrow> replaceFirst a b s = s"
  by (induction s) auto

lemma replaceFirst_back: "b \<notin> set s \<Longrightarrow> replaceFirst b a (replaceFirst a b s) = s"
  by (induction s) (auto simp: replaceFirst_absent)

lemma set_replaceFirst: "set (replaceFirst a b s) \<subseteq> insert b (set s)"
  by (induction s) auto

subsection \<open>The characters of a formatted amount\<close>

lemma digitsOf_not_Nil: "digitsOf n \<noteq> []"
  by (subst digitsOf.simps) simp

lemma digit_char: "0 \<le> k \<Longrightarrow> k < 10 \<Longrightarrow> char_of (48 + k) \<in> set ''0123456789''" for k :: int
proof -
  assume "0 \<le> k" "k < 10"
  then have "k = 0 \<or> k = 1 \<or> k = 2 \<or> k = 3 \<or> k = 4 \<or> k = 5 \<or> k = 6 \<or> k = 7 \<or> k = 8 \<or> k = 9"
    by presburger
  then show ?thesis by (elim disjE) (simp_all add: char_of_def)
qed

lemma digitsOf_chars: "0 \<le> n \<Longrightarrow> set (digitsOf n) \<subseteq> set ''0123456789''"
proof (induction n rule: digitsOf.induct)
  case (1 n)
  show ?case
  proof (cases "n < 10")
    case True
    with "1.prems" digit_char [of n] show ?thesis
      by (subst digitsOf.simps) simp
  next
    case False
    with "1.prems" have "0 \<le> n div 10" by simp
    with False "1.IH" have "set (digitsOf (n div 10)) \<subseteq> set ''0123456789''" by simp
    moreover have "char_of (48 + n mod 10) \<in> set ''0123456789''"
      by (rule digit_char) simp_all
    ultimately show ?thesis using False
      by (subst digitsOf.simps) simp
  qed
qed

lemma digits_amountChars: "set ''0123456789'' \<subseteq> amountChars"
  by (simp add: amountChars_def)

lemma digitsOf_amountChars: "0 \<le> n \<Longrightarrow> set (digitsOf n) \<subseteq> amountChars"
  using digitsOf_chars digits_amountChars by (rule subset_trans)

lemma fixed2_chars: "0 \<le> n \<Longrightarrow> set (fixed2 n) \<subseteq> amountChars"
proof -
  assume n: "0 \<le> n"
  define m where "m = replicate (3 - length (digitsOf n)) (CHR ''0'') @ digitsOf n"
  have z: "CHR ''0'' \<in> amountChars" and p: "CHR ''.'' \<in> amountChars"
    by (simp_all add: amountChars_def)
  have "set m \<subseteq> amountChars"
    using digitsOf_amountChars [OF n] z by (auto simp: m_def)
  then have t: "set (take (length m - 2) m) \<subseteq> amountChars"
    and d: "set (drop (length m - 2) m) \<subseteq> amountChars"
    using set_take_subset [of "length m - 2" m] set_drop_subset [of "length m - 2" m] by blast+
  have "fixed2 n = take (length m - 2) m @ ''.'' @ drop (length m - 2) m"
    by (simp add: fixed2_def Let_def m_def)
  with t d p show ?thesis by simp
qed

lemma expString_chars: "0 \<le> s \<Longrightarrow> 0 < n \<Longrightarrow> set (expString s n) \<subseteq> amountChars"
proof -
  assume s: "0 \<le> s" and n: "0 < n"
  have c: "CHR ''.'' \<in> amountChars" "CHR ''e'' \<in> amountChars" "CHR ''+'' \<in> amountChars"
    by (simp_all add: amountChars_def)
  have d: "set (digitsOf s) \<subseteq> amountChars" using s by (rule digitsOf_amountChars)
  then have t: "set (take 1 (digitsOf s)) \<subseteq> amountChars"
    and r: "set (drop 1 (digitsOf s)) \<subseteq> amountChars"
    using set_take_subset [of 1 "digitsOf s"] set_drop_subset [of 1 "digitsOf s"] by blast+
  have e: "set (digitsOf (int n - 1)) \<subseteq> amountChars"
    using n by (intro digitsOf_amountChars) simp
  show ?thesis
  proof (cases "length (digitsOf s) = 1")
    case True
    then have "expString s n = digitsOf s @ ''e+'' @ digitsOf (int n - 1)"
      by (simp add: expString_def Let_def)
    with d e c show ?thesis by simp
  next
    case False
    then have "expString s n =
        take 1 (digitsOf s) @ ''.'' @ drop 1 (digitsOf s) @ ''e+'' @ digitsOf (int n - 1)"
      by (simp add: expString_def Let_def)
    with t r e c show ?thesis by simp
  qed
qed

lemma digitCandidates_pos: "s \<in> set (digitCandidates a n k) \<Longrightarrow> 0 \<le> s"
proof -
  assume "s \<in> set (digitCandidates a n k)"
  then have "(10::int) ^ (k - 1) \<le> s"
    by (auto simp: digitCandidates_def Let_def split: if_splits)
  moreover have "(0::int) \<le> 10 ^ (k - 1)" by simp
  ultimately show ?thesis by linarith
qed

lemma pickDigits_pos:
  "0 \<le> a \<Longrightarrow> \<forall>s \<in> set cs. 0 \<le> s \<Longrightarrow> 0 \<le> pickDigits a n k cs"
  by (auto simp: pickDigits_def Let_def split: list.splits)

lemma numberToString_chars: "0 \<le> a \<Longrightarrow> set (numberToString a) \<subseteq> amountChars"
proof -
  assume a: "0 \<le> a"
  define n where "n = length (digitsOf \<lfloor>a\<rfloor>)"
  have n: "0 < n" by (simp add: n_def digitsOf_not_Nil)
  have p: "0 \<le> pickDigits a n k (digitCandidates a n k)" for k
    using a by (intro pickDigits_pos) (auto dest: digitCandidates_pos)
  have q: "0 \<le> pickDigits a n 17 []"
    using a by (intro pickDigits_pos) auto
  have A: "set (expString 1 (n + 1)) \<subseteq> amountChars"
    by (rule expString_chars) simp_all
  have B: "set (expString (pickDigits a n k (digitCandidates a n k)) n) \<subseteq> amountChars" for k
    using p n by (rule expString_chars)
  have C: "set (expString (pickDigits a n 17 []) n) \<subseteq> amountChars"
    using q n by (rule expString_chars)
  show ?thesis
  proof (cases "round64 (10 ^ n) = Fin a")
    case True
    with A show ?thesis by (simp add: numberToString_def Let_def n_def [symmetric])
  next
    case False
    show ?thesis
    proof (cases "find (\<lambda>k. digitCandidates a n k \<noteq> []) [1 ..< 18]")
      case None
      with False C show ?thesis by (simp add: numberToString_def Let_def n_def [symmetric])
    next
      case (Some k)
      with False B [of k] show ?thesis by (simp add: numberToString_def Let_def n_def [symmetric])
    qed
  qed
qed

lemma toFixed2_chars: "set (toFixed2 x) \<subseteq> amountChars"
proof (cases x)
  case NaN
  then show ?thesis by (simp add: toFixed2_def amountChars_def)
next
  case PInf
  then show ?thesis by (simp add: toFixed2_def amountChars_def)
next
  case NInf
  then show ?thesis by (simp add: toFixed2_def amountChars_def)
next
  case (Fin q)
  have a: "set (numberToString \<bar>q\<bar>) \<subseteq> amountChars"
    by (rule numberToString_chars) simp
  have b: "set (fixed2 \<lfloor>\<bar>q\<bar> * 100 + 1 / 2\<rfloor>) \<subseteq> amountChars"
    by (rule fixed2_chars) simp
  have c: "CHR ''-'' \<in> amountChars" by (simp add: amountChars_def)
  from a b c show ?thesis
    unfolding Fin toFixed2_def by (auto split: if_splits)
qed

lemma amountChars_plain:
  assumes "c \<in> amountChars"
  shows "c \<noteq> CHR '','' \<and> c \<noteq> CHR ''|'' \<and> c \<noteq> CHR 0x0A \<and> \<not> isWhiteSpace c"
proof -
  from assms have "c \<in> set ''0123456789-.e+NaInfity''"
    by (simp add: amountChars_def)
  then have "c = CHR ''0'' \<or> c = CHR ''1'' \<or> c = CHR ''2'' \<or> c = CHR ''3'' \<or> c = CHR ''4'' \<or> c = CHR ''5'' \<or> c = CHR ''6'' \<or> c = CHR ''7'' \<or> c = CHR ''8'' \<or> c = CHR ''9'' \<or> c = CHR ''-'' \<or> c = CHR ''.'' \<or> c = CHR ''e'' \<or> c = CHR ''+'' \<or> c = CHR ''N'' \<or> c = CHR ''a'' \<or> c = CHR ''I'' \<or> c = CHR ''n'' \<or> c = CHR ''f'' \<or> c = CHR ''i'' \<or> c = CHR ''t'' \<or> c = CHR ''y''"
    by simp
  then show ?thesis
    by (elim disjE) (simp_all add: isWhiteSpace_def)
qed

subsection \<open>\<^verbatim>\<open>parseFECFile\<close>: failure and skipped lines\<close>

lemma length_FIELDS: "length FIELDS = 18"
  by (simp add: FIELDS_def)

lemma concat_map_skip:
  "concat (map (\<lambda>x. if P x then [] else [f x]) xs) = map f (filter (\<lambda>x. \<not> P x) xs)"
  by (induction xs) auto

lemma filter_all_but_one:
  assumes "k < length xs" and "\<not> P (xs ! k)"
    and "\<forall>j < length xs. j \<noteq> k \<longrightarrow> P (xs ! j)"
  shows "filter P xs = take k xs @ drop (Suc k) xs"
proof -
  have l: "\<forall>x \<in> set (take k xs). P x"
  proof
    fix x assume "x \<in> set (take k xs)"
    then obtain j where "j < length (take k xs)" "take k xs ! j = x"
      by (auto simp: in_set_conv_nth)
    with assms show "P x" by auto
  qed
  have r: "\<forall>x \<in> set (drop (Suc k) xs). P x"
  proof
    fix x assume "x \<in> set (drop (Suc k) xs)"
    then obtain j where "j < length (drop (Suc k) xs)" "drop (Suc k) xs ! j = x"
      by (auto simp: in_set_conv_nth)
    with assms show "P x" by auto
  qed
  have "xs = take k xs @ xs ! k # drop (Suc k) xs"
    using assms(1) by (rule id_take_nth_drop)
  then have "filter P xs = filter P (take k xs) @ filter P (xs ! k # drop (Suc k) xs)"
    by (metis filter_append)
  with l r assms(2) show ?thesis by (simp add: filter_id_conv)
qed

lemma parseFECFile_cases:
  "parseFECFile content =
     (if list_all isWhiteSpace content then Inl EmptyFile
      else if length (nonBlankLines content) < 2 then Inl TooFewLines
      else if length (split_str (CHR ''|'') (hd (nonBlankLines content))) \<noteq> 18
      then Inl (BadHeader (length (split_str (CHR ''|'') (hd (nonBlankLines content)))))
      else Inr (map entryOfValues
                  (filter (\<lambda>vs. length vs = 18)
                     (map (split_str (CHR ''|'')) (tl (nonBlankLines content))))))"
proof -
  have e: "(content = [] \<or> trim content = []) = list_all isWhiteSpace content"
    by (auto simp: trim_empty_iff)
  have c: "concat (map (\<lambda>line. if length (split_str (CHR ''|'') line) \<noteq> 18 then []
                               else [entryOfValues (split_str (CHR ''|'') line)]) ls)
           = map entryOfValues (filter (\<lambda>vs. length vs = 18) (map (split_str (CHR ''|'')) ls))" for ls
    by (induction ls) auto
  show ?thesis
    unfolding parseFECFile_def e by (simp add: Let_def c length_FIELDS)
qed

text \<open>The lines of the code and its column count are those of the specification.\<close>

lemma spec_lines_Nil: "spec_lines [] = [[]]"
  by (subst spec_lines.simps) simp

lemma spec_lines_LF: "spec_lines (CHR 0x0A # s) = [] # spec_lines s"
  by (subst spec_lines.simps) (simp add: stripCR_def)

lemma spec_lines_plain: "CHR 0x0A \<notin> set s \<Longrightarrow> spec_lines s = [s]"
  by (subst spec_lines.simps) simp

lemma spec_lines_cut:
  "CHR 0x0A \<in> set s \<Longrightarrow>
   spec_lines s = stripCR (takeWhile (\<lambda>c. c \<noteq> CHR 0x0A) s)
                  # spec_lines (tl (dropWhile (\<lambda>c. c \<noteq> CHR 0x0A) s))"
  by (subst spec_lines.simps) simp

lemma stripCR_Cons:
  "l \<noteq> [] \<or> c \<noteq> CHR 0x0D \<Longrightarrow> stripCR (c # l) = c # stripCR l"
  by (auto simp: stripCR_def)

lemma splitLines_spec: "splitLines s = spec_lines s"
proof (induction s rule: splitLines.induct)
  case 1
  show ?case by (simp add: spec_lines_Nil)
next
  case (2 c)
  show ?case
    by (cases "c = CHR 0x0A") (simp_all add: spec_lines_LF spec_lines_Nil spec_lines_plain)
next
  case (3 c d cs)
  show ?case
  proof (cases "c = CHR 0x0A")
    case True
    with 3 show ?thesis by (simp add: spec_lines_LF)
  next
    case c: False
    show ?thesis
    proof (cases "c = CHR 0x0D \<and> d = CHR 0x0A")
      case True
      with 3 have "splitLines (c # d # cs) = [] # spec_lines cs" by simp
      moreover from True have "spec_lines (c # d # cs) = [] # spec_lines cs"
        by (subst spec_lines_cut) (simp_all add: stripCR_def)
      ultimately show ?thesis by simp
    next
      case False
      with c 3 have ih: "splitLines (d # cs) = spec_lines (d # cs)" by simp
      show ?thesis
      proof (cases "CHR 0x0A \<in> set (d # cs)")
        case no: False
        then have "spec_lines (d # cs) = [d # cs]" by (rule spec_lines_plain)
        moreover from no c have "spec_lines (c # d # cs) = [c # d # cs]"
          by (intro spec_lines_plain) simp
        ultimately show ?thesis using c False ih by simp
      next
        case yes: True
        let ?t = "takeWhile (\<lambda>c. c \<noteq> CHR 0x0A) (d # cs)"
        let ?r = "spec_lines (tl (dropWhile (\<lambda>c. c \<noteq> CHR 0x0A) (d # cs)))"
        from yes have 1: "spec_lines (d # cs) = stripCR ?t # ?r" by (rule spec_lines_cut)
        from yes c have "spec_lines (c # d # cs) = stripCR (c # ?t) # ?r"
          by (subst spec_lines_cut) simp_all
        moreover from False have "?t \<noteq> [] \<or> c \<noteq> CHR 0x0D" by auto
        then have "stripCR (c # ?t) = c # stripCR ?t" by (rule stripCR_Cons)
        ultimately show ?thesis using c False ih 1 by simp
      qed
    qed
  qed
qed

lemma nonBlankLines_spec: "nonBlankLines content = spec_nonBlankLines content"
  by (simp add: nonBlankLines_def spec_nonBlankLines_def splitLines_spec trim_empty_iff)

lemma columns_spec: "length (split_str (CHR ''|'') l) = spec_columns l"
  by (simp add: length_split_str spec_columns_def)

lemma parseFECFile_spec:
  "parseFECFile content =
     (if list_all isWhiteSpace content then Inl EmptyFile
      else if length (spec_nonBlankLines content) < 2 then Inl TooFewLines
      else if spec_columns (hd (spec_nonBlankLines content)) \<noteq> 18
      then Inl (BadHeader (spec_columns (hd (spec_nonBlankLines content))))
      else Inr (map (\<lambda>line. entryOfValues (split_str (CHR ''|'') line))
                  (filter (\<lambda>line. spec_columns line = 18) (tl (spec_nonBlankLines content)))))"
proof -
  have "map entryOfValues (filter (\<lambda>vs. length vs = 18) (map (split_str (CHR ''|'')) ls))
          = map (\<lambda>line. entryOfValues (split_str (CHR ''|'') line))
              (filter (\<lambda>line. spec_columns line = 18) ls)" for ls
    by (induction ls) (simp_all add: columns_spec)
  then show ?thesis
    by (simp add: parseFECFile_cases nonBlankLines_spec columns_spec)
qed

text \<open>
  C6. \<^verbatim>\<open>parseFECFile\<close> is determined by the conditions of the specification, stated on
  the text itself: on a text that is empty or white space only it ends with the error
  for an empty file; else with fewer than two non-blank lines, with the error for too few
  lines; else with a first non-blank line that does not have exactly 18 columns, with the
  error for the header; and otherwise it returns the entries of exactly those later
  non-blank lines that have 18 columns, in their order, every line with another number
  of columns being skipped. So it fails exactly under the three conditions, every error
  it ends with is a \<^verbatim>\<open>FormatError\<close>, and when one data line (at position \<open>k\<close>) has 17
  fields and every other data line has 18, the result has one entry fewer than there are
  data lines.
\<close>

theorem parseFECFile_fails_exactly_when:
  "parseFECFile content =
     (if list_all isWhiteSpace content then Inl EmptyFile
      else if length (spec_nonBlankLines content) < 2 then Inl TooFewLines
      else if spec_columns (hd (spec_nonBlankLines content)) \<noteq> 18
      then Inl (BadHeader (spec_columns (hd (spec_nonBlankLines content))))
      else Inr (map (\<lambda>line. entryOfValues (split_str (CHR ''|'') line))
                  (filter (\<lambda>line. spec_columns line = 18) (tl (spec_nonBlankLines content)))))
   \<and> ((\<exists>err. parseFECFile content = Inl err) \<longleftrightarrow>
        (list_all isWhiteSpace content \<or> length (spec_nonBlankLines content) < 2 \<or>
         spec_columns (hd (spec_nonBlankLines content)) \<noteq> 18))
   \<and> (\<forall>err. parseFECFile content = Inl err \<longrightarrow> FormatError err)
   \<and> (\<forall>k. \<not> list_all isWhiteSpace content \<and> 2 \<le> length (spec_nonBlankLines content) \<and>
           spec_columns (hd (spec_nonBlankLines content)) = 18 \<and>
           k < length (tl (spec_nonBlankLines content)) \<and>
           spec_columns (tl (spec_nonBlankLines content) ! k) = 17 \<and>
           (\<forall>j < length (tl (spec_nonBlankLines content)). j \<noteq> k \<longrightarrow>
                spec_columns (tl (spec_nonBlankLines content) ! j) = 18)
        \<longrightarrow> (\<exists>es. parseFECFile content = Inr es \<and>
                  length es + 1 = length (tl (spec_nonBlankLines content)) \<and>
                  es = map (\<lambda>line. entryOfValues (split_str (CHR ''|'') line))
                         (take k (tl (spec_nonBlankLines content))
                          @ drop (Suc k) (tl (spec_nonBlankLines content)))))"
proof (intro conjI allI impI)
  show "parseFECFile content =
     (if list_all isWhiteSpace content then Inl EmptyFile
      else if length (spec_nonBlankLines content) < 2 then Inl TooFewLines
      else if spec_columns (hd (spec_nonBlankLines content)) \<noteq> 18
      then Inl (BadHeader (spec_columns (hd (spec_nonBlankLines content))))
      else Inr (map (\<lambda>line. entryOfValues (split_str (CHR ''|'') line))
                  (filter (\<lambda>line. spec_columns line = 18) (tl (spec_nonBlankLines content)))))"
    by (rule parseFECFile_spec)
next
  show "(\<exists>err. parseFECFile content = Inl err) \<longleftrightarrow>
        (list_all isWhiteSpace content \<or> length (spec_nonBlankLines content) < 2 \<or>
         spec_columns (hd (spec_nonBlankLines content)) \<noteq> 18)"
    by (simp add: parseFECFile_spec)
next
  fix err
  assume "parseFECFile content = Inl err"
  then show "FormatError err"
    by (auto simp: parseFECFile_spec split: if_splits)
next
  fix k
  define rows where "rows = tl (spec_nonBlankLines content)"
  assume h: "\<not> list_all isWhiteSpace content \<and> 2 \<le> length (spec_nonBlankLines content) \<and>
           spec_columns (hd (spec_nonBlankLines content)) = 18 \<and>
           k < length (tl (spec_nonBlankLines content)) \<and>
           spec_columns (tl (spec_nonBlankLines content) ! k) = 17 \<and>
           (\<forall>j < length (tl (spec_nonBlankLines content)). j \<noteq> k \<longrightarrow>
                spec_columns (tl (spec_nonBlankLines content) ! j) = 18)"
  then have p: "parseFECFile content =
      Inr (map (\<lambda>line. entryOfValues (split_str (CHR ''|'') line))
             (filter (\<lambda>line. spec_columns line = 18) rows))"
    by (simp add: parseFECFile_spec rows_def)
  from h have k: "k < length rows" and nk: "\<not> spec_columns (rows ! k) = 18"
    and others: "\<forall>j < length rows. j \<noteq> k \<longrightarrow> spec_columns (rows ! j) = 18"
    by (auto simp: rows_def)
  from k nk others
  have f: "filter (\<lambda>line. spec_columns line = 18) rows = take k rows @ drop (Suc k) rows"
    by (rule filter_all_but_one)
  from k have len: "length (take k rows @ drop (Suc k) rows) + 1 = length rows"
    by auto
  show "\<exists>es. parseFECFile content = Inr es \<and>
                  length es + 1 = length (tl (spec_nonBlankLines content)) \<and>
                  es = map (\<lambda>line. entryOfValues (split_str (CHR ''|'') line))
                         (take k (tl (spec_nonBlankLines content))
                          @ drop (Suc k) (tl (spec_nonBlankLines content)))"
    using p f len by (simp add: rows_def)
qed

text \<open>
  C6 at a file of two data lines, the second one with 17 fields: the conditions of the
  last part hold and one entry, the one of the first data line, is returned.
\<close>

theorem parseFECFile_skips_short_line:
  "\<not> list_all isWhiteSpace shortLineFile \<and> 2 \<le> length (spec_nonBlankLines shortLineFile) \<and>
   spec_columns (hd (spec_nonBlankLines shortLineFile)) = 18 \<and>
   spec_columns (tl (spec_nonBlankLines shortLineFile) ! 1) = 17 \<and>
   (\<exists>es. parseFECFile shortLineFile = Inr es \<and>
        length es + 1 = length (tl (spec_nonBlankLines shortLineFile)) \<and>
        es = [entryOfValues (split_str (CHR ''|'') saleLine)])"
proof -
  have nb: "spec_nonBlankLines shortLineFile = [headerLine, saleLine, shortLine]"
    by code_simp
  have ws: "\<not> list_all isWhiteSpace shortLineFile"
    by code_simp
  have c0: "spec_columns headerLine = 18"
    by code_simp
  have c1: "spec_columns saleLine = 18"
    by code_simp
  have c2: "spec_columns shortLine = 17"
    by code_simp
  have o: "\<forall>j < length (tl (spec_nonBlankLines shortLineFile)). j \<noteq> 1 \<longrightarrow>
             spec_columns (tl (spec_nonBlankLines shortLineFile) ! j) = 18"
    using c1 by (auto simp: nb less_Suc_eq)
  from ws c0 c2 o
  have "\<exists>es. parseFECFile shortLineFile = Inr es \<and>
                  length es + 1 = length (tl (spec_nonBlankLines shortLineFile)) \<and>
                  es = map (\<lambda>line. entryOfValues (split_str (CHR ''|'') line))
                         (take 1 (tl (spec_nonBlankLines shortLineFile))
                          @ drop (Suc 1) (tl (spec_nonBlankLines shortLineFile)))"
    by (intro parseFECFile_fails_exactly_when [of shortLineFile, THEN conjunct2, THEN conjunct2,
          THEN conjunct2, rule_format, of 1])
       (simp add: nb)
  with ws c0 c2 show ?thesis by (auto simp: nb)
qed

text \<open>The parser on three more files: a header followed by blanks only is too short; a
  line of 19 columns and a blank line between the data lines are skipped; and the entry
  of a kept line has its values trimmed and its amounts with a point.\<close>

lemma parseFECFile_examples:
  "parseFECFile headerOnlyFile = Inl TooFewLines"
  "parseFECFile longLineFile =
     Inr [sale\<lparr>Montantdevise := ''0.00''\<rparr>, customer\<lparr>Montantdevise := ''0.00''\<rparr>]"
  "parseFECFile (''a|b'' @ CRLF @ saleLine) = Inl (BadHeader 2)"
  "parseFECFile [CHR 0x20, CHR 0x0A, CHR 0x09] = Inl EmptyFile"
  by code_simp+

subsection \<open>Reading back a generated file\<close>

lemma set_join: "set (join sep xs) \<subseteq> set sep \<union> (\<Union>x \<in> set xs. set x)"
  by (induction sep xs rule: join.induct) auto

lemma no_ws_trimmed: "\<forall>c \<in> set s. \<not> isWhiteSpace c \<Longrightarrow> trimmed s"
  by (cases s) (auto simp: trimmed_def)

lemma formatAmount_chars:
  assumes "c \<in> set (formatAmount v)"
  shows "c \<noteq> CHR ''|'' \<and> c \<noteq> CHR 0x0A \<and> \<not> isWhiteSpace c"
proof -
  from assms set_replaceFirst [of "CHR ''.''" "CHR '',''" "toFixed2 (amountOf v)"]
  have "c = CHR '','' \<or> c \<in> set (toFixed2 (amountOf v))"
    by (auto simp: formatAmount_def)
  then show ?thesis
  proof
    assume "c = CHR '',''"
    then show ?thesis by (simp add: isWhiteSpace_def)
  next
    assume "c \<in> set (toFixed2 (amountOf v))"
    with toFixed2_chars have "c \<in> amountChars" by blast
    then show ?thesis using amountChars_plain by blast
  qed
qed

lemma cell_amount:
  assumes "isAmountField f"
  shows "cellValue f (removePipes (formatAmount v)) = toFixed2 (amountOf v)"
proof -
  have p: "removePipes (formatAmount v) = formatAmount v"
    by (rule removePipes_id) (use formatAmount_chars in blast)
  have t: "trim (formatAmount v) = formatAmount v"
    by (intro trim_id no_ws_trimmed) (use formatAmount_chars in blast)
  have "CHR '','' \<notin> set (toFixed2 (amountOf v))"
    using toFixed2_chars amountChars_plain by blast
  then have "replaceFirst (CHR '','') (CHR ''.'') (formatAmount v) = toFixed2 (amountOf v)"
    unfolding formatAmount_def by (rule replaceFirst_back)
  with assms p t show ?thesis by (simp add: cellValue_def)
qed

lemma cell_text: "\<not> isAmountField f \<Longrightarrow> clean v \<Longrightarrow> cellValue f (removePipes v) = v"
  by (simp add: cellValue_def clean_def removePipes_id trim_id)

lemma fieldText_no_pipe: "CHR ''|'' \<notin> set (fieldText e p)"
  by (cases p) (simp add: fieldText_def removePipes_free)

lemma entryLine_split: "split_str (CHR ''|'') (entryLine e) = map (fieldText e) FIELDS"
proof -
  have "map (fieldText e) FIELDS \<noteq> []" by (simp add: FIELDS_def)
  moreover have "\<forall>f \<in> set (map (fieldText e) FIELDS). CHR ''|'' \<notin> set f"
    by (auto simp: fieldText_no_pipe)
  ultimately show ?thesis
    unfolding entryLine_def by (rule split_str_join)
qed

lemma fieldText_no_LF:
  assumes "isAmountField (fst p) \<or> clean (snd p e)"
  shows "CHR 0x0A \<notin> set (fieldText e p)"
proof (cases "isAmountField (fst p)")
  case True
  then have "fieldText e p = removePipes (formatAmount (snd p e))"
    by (cases p) (simp add: fieldText_def)
  then show ?thesis
    using formatAmount_chars [of "CHR 0x0A" "snd p e"] by (auto simp: removePipes_def)
next
  case False
  with assms have "clean (snd p e)" by simp
  moreover from False have "fieldText e p = removePipes (snd p e)"
    by (cases p) (simp add: fieldText_def)
  ultimately show ?thesis by (auto simp: clean_def removePipes_def)
qed

lemma entryLine_no_LF:
  assumes "cleanEntry e"
  shows "CHR 0x0A \<notin> set (entryLine e)"
proof
  assume "CHR 0x0A \<in> set (entryLine e)"
  with set_join [of "''|''" "map (fieldText e) FIELDS"]
  obtain p where p: "p \<in> set FIELDS" and c: "CHR 0x0A \<in> set (fieldText e p)"
    by (auto simp: entryLine_def)
  from assms p have "isAmountField (fst p) \<or> clean (snd p e)"
    by (auto simp: cleanEntry_def list_all_iff)
  with c fieldText_no_LF show False by blast
qed

lemma has_char_not_blank: "c \<in> set s \<Longrightarrow> \<not> isWhiteSpace c \<Longrightarrow> trim s \<noteq> []"
  by (auto simp: trim_empty_iff list_all_iff)

lemma entryLine_not_blank: "trim (entryLine e) \<noteq> []"
proof -
  have "CHR ''|'' \<in> set (entryLine e)"
    by (simp add: entryLine_def FIELDS_def)
  then show ?thesis
    by (rule has_char_not_blank) (simp add: isWhiteSpace_def)
qed

lemma header_eq: "join ''|'' (map fst FIELDS) = headerLine"
  by (simp add: FIELDS_def headerLine_def)

lemma header_facts:
  "CHR 0x0A \<notin> set headerLine" "trim headerLine \<noteq> []" "CHR ''J'' \<in> set headerLine"
  "length (split_str (CHR ''|'') headerLine) = 18"
proof -
  show j: "CHR ''J'' \<in> set headerLine" by (simp add: headerLine_def)
  then show "trim headerLine \<noteq> []"
    by (rule has_char_not_blank) (simp add: isWhiteSpace_def)
  show "CHR 0x0A \<notin> set headerLine" by (simp add: headerLine_def)
  show "length (split_str (CHR ''|'') headerLine) = 18"
    by (simp add: length_split_str headerLine_def)
qed

lemma entry_back:
  assumes "cleanEntry e"
  shows "entryOfValues (map (fieldText e) FIELDS) = normalizeAmounts e"
proof -
  from assms have c: "clean (JournalCode e)" "clean (JournalLib e)" "clean (EcritureNum e)"
    "clean (EcritureDate e)" "clean (CompteNum e)" "clean (CompteLib e)" "clean (CompAuxNum e)"
    "clean (CompAuxLib e)" "clean (PieceRef e)" "clean (PieceDate e)" "clean (EcritureLib e)"
    "clean (EcritureLet e)" "clean (DateLet e)" "clean (ValidDate e)" "clean (Idevise e)"
    by (simp_all add: cleanEntry_def FIELDS_def isAmountField_def)
  have a: "isAmountField ''Debit''" "isAmountField ''Credit''" "isAmountField ''Montantdevise''"
    by (simp_all add: isAmountField_def)
  have n: "\<not> isAmountField ''JournalCode''" "\<not> isAmountField ''JournalLib''"
    "\<not> isAmountField ''EcritureNum''" "\<not> isAmountField ''EcritureDate''"
    "\<not> isAmountField ''CompteNum''" "\<not> isAmountField ''CompteLib''"
    "\<not> isAmountField ''CompAuxNum''" "\<not> isAmountField ''CompAuxLib''"
    "\<not> isAmountField ''PieceRef''" "\<not> isAmountField ''PieceDate''"
    "\<not> isAmountField ''EcritureLib''" "\<not> isAmountField ''EcritureLet''"
    "\<not> isAmountField ''DateLet''" "\<not> isAmountField ''ValidDate''" "\<not> isAmountField ''Idevise''"
    by (simp_all add: isAmountField_def)
  show ?thesis
    unfolding entryOfValues_def FIELDS_def fieldText_def Let_def normalizeAmounts_def
    by (cases e) (use c in \<open>simp add: a cell_amount cell_text n\<close>)
qed

lemma generated_lines:
  assumes "es \<noteq> []" and "list_all cleanEntry es"
  shows "nonBlankLines (join CRLF (headerLine # map entryLine es)) = headerLine # map entryLine es"
    and "\<not> list_all isWhiteSpace (join CRLF (headerLine # map entryLine es))"
proof -
  let ?ls = "headerLine # map entryLine es"
  have "\<forall>l \<in> set ?ls. CHR 0x0A \<notin> set l"
    using assms(2) by (auto simp: header_facts entryLine_no_LF list_all_iff)
  then have s: "splitLines (join CRLF ?ls) = ?ls"
    by (intro splitLines_join) simp_all
  have "\<forall>l \<in> set ?ls. trim l \<noteq> []"
    by (auto simp: header_facts entryLine_not_blank)
  then show "nonBlankLines (join CRLF ?ls) = ?ls"
    unfolding nonBlankLines_def s by (simp add: filter_id_conv del: filter.simps)
  from assms(1) obtain e es' where "es = e # es'" by (cases es) auto
  then have "CHR ''J'' \<in> set (join CRLF ?ls)"
    by (simp add: header_facts)
  then have "trim (join CRLF ?ls) \<noteq> []"
    by (rule has_char_not_blank) (simp add: isWhiteSpace_def)
  then show "\<not> list_all isWhiteSpace (join CRLF ?ls)"
    by (simp add: trim_empty_iff)
qed

text \<open>
  C1, as the code has it. For a non-empty ledger whose values outside the three amount
  fields contain no \<^verbatim>\<open>|\<close> and no line feed and are trimmed, the file is generated and
  reading it back gives the ledger with every other field unchanged and with \<^verbatim>\<open>Debit\<close>,
  \<^verbatim>\<open>Credit\<close> and \<^verbatim>\<open>Montantdevise\<close> rewritten to the two-decimal form of their value (an
  empty amount becomes \<^verbatim>\<open>0.00\<close>). The ledger itself comes back exactly when its amounts
  are already in that form.
\<close>

theorem roundtrip_normalizes_amounts:
  assumes "es \<noteq> []" and "list_all cleanEntry es"
  shows "\<exists>c. generateFECFile es = Inr c \<and> parseFECFile c = Inr (map normalizeAmounts es) \<and>
             (parseFECFile c = Inr es \<longleftrightarrow> list_all (\<lambda>e. normalizeAmounts e = e) es)"
proof -
  let ?c = "join CRLF (headerLine # map entryLine es)"
  have g: "generateFECFile es = Inr ?c"
    using assms(1) by (simp add: generateFECFile_def header_eq)
  have R: "map entryOfValues (filter (\<lambda>vs. length vs = 18)
                                (map (split_str (CHR ''|'') \<circ> entryLine) es))
             = map normalizeAmounts es"
  proof -
    have 1: "map (split_str (CHR ''|'') \<circ> entryLine) es = map (\<lambda>e. map (fieldText e) FIELDS) es"
      by (simp add: entryLine_split)
    have 2: "filter (\<lambda>vs. length vs = 18) (map (\<lambda>e. map (fieldText e) FIELDS) es)
               = map (\<lambda>e. map (fieldText e) FIELDS) es"
      by (simp add: filter_id_conv length_FIELDS)
    show ?thesis
      unfolding 1 2 using assms(2) by (simp add: entry_back list_all_iff)
  qed
  have p: "parseFECFile ?c = Inr (map normalizeAmounts es)"
    using assms(1) generated_lines [OF assms]
    by (simp add: parseFECFile_cases header_facts R)
  have "map normalizeAmounts es = es \<longleftrightarrow> list_all (\<lambda>e. normalizeAmounts e = e) es"
    by (simp add: map_idI list_all_iff map_eq_conv [where g = "\<lambda>e. e", simplified])
  with g p show ?thesis by simp
qed

text \<open>C1, as the code has it, at the balanced pair of the sale and its customer entry.\<close>

theorem roundtrip_of_sample_ledger:
  "[sale, customer] \<noteq> [] \<and> list_all cleanEntry [sale, customer] \<and>
   (\<exists>c. generateFECFile [sale, customer] = Inr c \<and>
        parseFECFile c = Inr (map normalizeAmounts [sale, customer]))"
proof -
  have n: "[sale, customer] \<noteq> []" by simp
  have c: "list_all cleanEntry [sale, customer]" by code_simp
  from roundtrip_normalizes_amounts [OF n c] c show ?thesis by blast
qed

lemma amount_cell_NaN:
  "v \<noteq> [] \<Longrightarrow> isNaN (parseFloat v) \<Longrightarrow> removePipes (formatAmount v) = ''NaN''"
  by (simp add: formatAmount_def amountOf_def isNaN_def toFixed2_def removePipes_def)

lemma parseFloat_zero: "parseFloat ''0'' = Fin 0"
  by code_simp

lemma toFixed2_zero: "toFixed2 (Fin 0) = ''0.00''"
  by code_simp

lemma amount_cell_empty: "removePipes (formatAmount []) = ''0,00''"
  by (simp add: formatAmount_def amountOf_def parseFloat_zero toFixed2_zero removePipes_def)

text \<open>
  C10. For a non-empty ledger \<^verbatim>\<open>generateFECFile\<close> returns the header and one line per
  entry, joined by CR LF. In the line of an entry, the column of \<^verbatim>\<open>Debit\<close>, \<^verbatim>\<open>Credit\<close> or
  \<^verbatim>\<open>Montantdevise\<close> (columns 11, 12 and 16, counted from 0) holds the text \<^verbatim>\<open>NaN\<close> when
  the field is a non-empty string that \<^verbatim>\<open>parseFloat\<close> reads as NaN, and \<^verbatim>\<open>0,00\<close> when the
  field is empty.
\<close>

theorem generate_writes_NaN:
  assumes "es \<noteq> []" and "e \<in> set es"
  shows "generateFECFile es = Inr (join CRLF (join ''|'' (map fst FIELDS) # map entryLine es)) \<and>
         map fst FIELDS ! 11 = ''Debit'' \<and> map fst FIELDS ! 12 = ''Credit'' \<and>
         map fst FIELDS ! 16 = ''Montantdevise'' \<and>
         (Debit e \<noteq> [] \<and> isNaN (parseFloat (Debit e)) \<longrightarrow>
            split_str (CHR ''|'') (entryLine e) ! 11 = ''NaN'') \<and>
         (Credit e \<noteq> [] \<and> isNaN (parseFloat (Credit e)) \<longrightarrow>
            split_str (CHR ''|'') (entryLine e) ! 12 = ''NaN'') \<and>
         (Montantdevise e \<noteq> [] \<and> isNaN (parseFloat (Montantdevise e)) \<longrightarrow>
            split_str (CHR ''|'') (entryLine e) ! 16 = ''NaN'') \<and>
         (Debit e = [] \<longrightarrow> split_str (CHR ''|'') (entryLine e) ! 11 = ''0,00'') \<and>
         (Credit e = [] \<longrightarrow> split_str (CHR ''|'') (entryLine e) ! 12 = ''0,00'') \<and>
         (Montantdevise e = [] \<longrightarrow> split_str (CHR ''|'') (entryLine e) ! 16 = ''0,00'')"
proof -
  have g: "generateFECFile es = Inr (join CRLF (join ''|'' (map fst FIELDS) # map entryLine es))"
    using assms(1) by (simp add: generateFECFile_def)
  have names: "map fst FIELDS ! 11 = ''Debit''" "map fst FIELDS ! 12 = ''Credit''"
    "map fst FIELDS ! 16 = ''Montantdevise''"
    by (simp_all add: FIELDS_def)
  have cells: "split_str (CHR ''|'') (entryLine e) ! 11 = removePipes (formatAmount (Debit e))"
    "split_str (CHR ''|'') (entryLine e) ! 12 = removePipes (formatAmount (Credit e))"
    "split_str (CHR ''|'') (entryLine e) ! 16 = removePipes (formatAmount (Montantdevise e))"
    by (simp_all add: entryLine_split FIELDS_def fieldText_def isAmountField_def)
  show ?thesis
    unfolding cells using g names by (simp add: amount_cell_NaN amount_cell_empty)
qed

text \<open>C10 at an entry with the debit \<^verbatim>\<open>abc\<close> and an empty credit.\<close>

theorem generate_writes_NaN_sample:
  "garbledLedger \<noteq> [] \<and> hd garbledLedger \<in> set garbledLedger \<and>
   Debit (hd garbledLedger) \<noteq> [] \<and> isNaN (parseFloat (Debit (hd garbledLedger))) \<and>
   Credit (hd garbledLedger) = [] \<and>
   generateFECFile garbledLedger =
     Inr (join CRLF (join ''|'' (map fst FIELDS) # map entryLine garbledLedger)) \<and>
   split_str (CHR ''|'') (entryLine (hd garbledLedger)) ! 11 = ''NaN'' \<and>
   split_str (CHR ''|'') (entryLine (hd garbledLedger)) ! 12 = ''0,00''"
proof -
  have n: "garbledLedger \<noteq> []" by code_simp
  have m: "hd garbledLedger \<in> set garbledLedger" by code_simp
  have d: "Debit (hd garbledLedger) \<noteq> []" by code_simp
  have p: "isNaN (parseFloat (Debit (hd garbledLedger)))" by code_simp
  have c: "Credit (hd garbledLedger) = []" by code_simp
  from generate_writes_NaN [OF n m] d p c show ?thesis
    using n m by blast
qed

subsection \<open>The empty ledger\<close>

text \<open>
  C7 fails as stated in one word: the single error of the report for the empty ledger
  carries the type \<^verbatim>\<open>EMPTY_FEC\<close>, not \<^verbatim>\<open>EMPTY_LEDGER\<close>.
\<close>

theorem empty_ledger_kind_is_EMPTY_FEC:
  "validateFECCompliance [] =
     Inr \<lparr>valid = False,
          errors = [\<lparr>type = EMPTY_FEC, message = NothingToValidate, entry = None\<rparr>],
          warnings = []\<rparr> \<and>
   kindName EMPTY_FEC = ''EMPTY_FEC'' \<and> kindName EMPTY_FEC \<noteq> ''EMPTY_LEDGER''"
  by (simp add: validateFECCompliance_def)

text \<open>
  C7, as the code has it. \<^verbatim>\<open>validateFECCompliance\<close> applied to a ledger with no entry
  returns (it does not throw) the report with \<open>valid = False\<close>, exactly one error, of type
  \<^verbatim>\<open>EMPTY_FEC\<close>, and no warning; none of the six passes contributes to it.
\<close>

theorem empty_ledger_report:
  "validateFECCompliance [] =
     Inr \<lparr>valid = False,
          errors = [\<lparr>type = EMPTY_FEC, message = NothingToValidate, entry = None\<rparr>],
          warnings = []\<rparr>"
  by (simp add: validateFECCompliance_def)

subsection \<open>The validator on a non-empty ledger\<close>

lemma collectPieces_eq:
  "collectPieces es ps =
     (if ownPieceRefs es then Inr (foldl (\<lambda>ps e. updatePiece e ps) ps es) else Inl TypeError)"
  by (induction es arbitrary: ps) (auto simp: ownPieceRefs_def)

lemma validate_nonempty:
  "es \<noteq> [] \<Longrightarrow> ownPieceRefs es \<Longrightarrow>
   validateFECCompliance es =
     Inr \<lparr>valid = (entryErrors es @ balanceErrors (foldl (\<lambda>ps e. updatePiece e ps) [] es)
                    @ duplicateErrors es = []),
          errors = entryErrors es @ balanceErrors (foldl (\<lambda>ps e. updatePiece e ps) [] es)
                    @ duplicateErrors es,
          warnings = chronologyWarnings es @ vatWarnings es @ journalWarnings es\<rparr>"
  by (simp add: validateFECCompliance_def collectPieces_eq Let_def)

lemma validate_throws:
  "es \<noteq> [] \<Longrightarrow> \<not> ownPieceRefs es \<Longrightarrow> validateFECCompliance es = Inl TypeError"
  by (simp add: validateFECCompliance_def collectPieces_eq)

lemma entryErrors_member:
  "i < length es \<Longrightarrow> m \<in> set (validateEntry (es ! i)) \<Longrightarrow>
   \<lparr>type = ENTRY_INVALID, message = m, entry = Some (entryTag i (es ! i))\<rparr> \<in> set (entryErrors es)"
  by (auto simp: entryErrors_def entryIssues_def in_set_enumerate_eq intro!: bexI [of _ "(i, es ! i)"])

lemma BothZero_member:
  "BothZero \<in> set (validateEntry e) \<longleftrightarrow> amountOf (Debit e) = Fin 0 \<and> amountOf (Credit e) = Fin 0"
  by (auto simp: validateEntry_def Let_def requiredFields_def)

lemma BothSet_member:
  "BothSet \<in> set (validateEntry e) \<longleftrightarrow>
     num_gt (amountOf (Debit e)) (Fin 0) \<and> num_gt (amountOf (Credit e)) (Fin 0)"
  by (auto simp: validateEntry_def Let_def requiredFields_def)

lemma MissingField_member:
  "(field, get) \<in> set requiredFields \<Longrightarrow> list_all isWhiteSpace (get e) \<Longrightarrow>
   MissingField field \<in> set (validateEntry e)"
  by (auto simp: validateEntry_def Let_def trim_empty_iff)

text \<open>
  C4, as the code has it. In a ledger on which the validator completes (no \<^verbatim>\<open>PieceRef\<close>
  names an inherited property), an entry whose debit and credit are both zero, or both
  greater than zero, gets an \<^verbatim>\<open>ENTRY_INVALID\<close> error under its tag, and the ledger does
  not validate. (Negative amounts are not tested by \<^verbatim>\<open>validateEntry\<close>.)
\<close>

theorem amount_rule_reported:
  assumes "i < length es" and "ownPieceRefs es"
    and "(amountOf (Debit (es ! i)) = Fin 0 \<and> amountOf (Credit (es ! i)) = Fin 0) \<or>
         (num_gt (amountOf (Debit (es ! i))) (Fin 0) \<and> num_gt (amountOf (Credit (es ! i))) (Fin 0))"
  shows "\<exists>r. validateFECCompliance es = Inr r \<and> \<not> valid r \<and>
           (amountOf (Debit (es ! i)) = Fin 0 \<and> amountOf (Credit (es ! i)) = Fin 0 \<longrightarrow>
              \<lparr>type = ENTRY_INVALID, message = BothZero, entry = Some (entryTag i (es ! i))\<rparr>
                \<in> set (errors r)) \<and>
           (num_gt (amountOf (Debit (es ! i))) (Fin 0) \<and> num_gt (amountOf (Credit (es ! i))) (Fin 0) \<longrightarrow>
              \<lparr>type = ENTRY_INVALID, message = BothSet, entry = Some (entryTag i (es ! i))\<rparr>
                \<in> set (errors r))"
proof -
  from assms(1) have ne: "es \<noteq> []" by auto
  have z: "\<lparr>type = ENTRY_INVALID, message = BothZero, entry = Some (entryTag i (es ! i))\<rparr>
             \<in> set (entryErrors es)"
    if "amountOf (Debit (es ! i)) = Fin 0 \<and> amountOf (Credit (es ! i)) = Fin 0"
    using that assms(1) by (intro entryErrors_member) (simp_all add: BothZero_member)
  have b: "\<lparr>type = ENTRY_INVALID, message = BothSet, entry = Some (entryTag i (es ! i))\<rparr>
             \<in> set (entryErrors es)"
    if "num_gt (amountOf (Debit (es ! i))) (Fin 0) \<and> num_gt (amountOf (Credit (es ! i))) (Fin 0)"
    using that assms(1) by (intro entryErrors_member) (simp_all add: BothSet_member)
  from z b assms(3) have "entryErrors es \<noteq> []" by auto
  with z b show ?thesis
    by (auto simp: validate_nonempty [OF ne assms(2)])
qed

text \<open>C4, as the code has it, at the ledger of one entry with debit and credit \<^verbatim>\<open>0.00\<close>.\<close>

theorem amount_rule_reported_zero:
  "0 < length zeroLedger \<and> ownPieceRefs zeroLedger \<and>
   amountOf (Debit (zeroLedger ! 0)) = Fin 0 \<and> amountOf (Credit (zeroLedger ! 0)) = Fin 0 \<and>
   (\<exists>r. validateFECCompliance zeroLedger = Inr r \<and> \<not> valid r \<and>
        \<lparr>type = ENTRY_INVALID, message = BothZero, entry = Some ''1''\<rparr> \<in> set (errors r))"
proof -
  have l: "0 < length zeroLedger" by code_simp
  have o: "ownPieceRefs zeroLedger" by code_simp
  have d: "amountOf (Debit (zeroLedger ! 0)) = Fin 0" by code_simp
  have c: "amountOf (Credit (zeroLedger ! 0)) = Fin 0" by code_simp
  have t: "entryTag 0 (zeroLedger ! 0) = ''1''" by code_simp
  from amount_rule_reported [OF l o] d c t show ?thesis
    using l o by auto
qed

text \<open>
  C5, as the code has it. In a ledger on which the validator completes, an entry with an
  empty (or white space only) value in one of the seven fields of \<^verbatim>\<open>requiredFields\<close>
  gets an \<^verbatim>\<open>ENTRY_INVALID\<close> error naming the field, under the entry's \<^verbatim>\<open>EcritureNum\<close> or,
  when that is empty, under \<^verbatim>\<open>Ligne n\<close> with its 1-based position; the ledger does not
  validate. \<^verbatim>\<open>JournalLib\<close> and \<^verbatim>\<open>PieceDate\<close> are not among the seven.
\<close>

theorem required_field_reported:
  assumes "i < length es" and "ownPieceRefs es"
    and "(field, get) \<in> set requiredFields" and "list_all isWhiteSpace (get (es ! i))"
  shows "\<exists>r. validateFECCompliance es = Inr r \<and> \<not> valid r \<and>
           \<lparr>type = ENTRY_INVALID, message = MissingField field,
            entry = Some (if EcritureNum (es ! i) \<noteq> [] then EcritureNum (es ! i)
                          else ''Ligne '' @ digitsOf (int i + 1))\<rparr> \<in> set (errors r)"
proof -
  from assms(1) have ne: "es \<noteq> []" by auto
  have "\<lparr>type = ENTRY_INVALID, message = MissingField field, entry = Some (entryTag i (es ! i))\<rparr>
          \<in> set (entryErrors es)"
    using assms by (intro entryErrors_member MissingField_member)
  then show ?thesis
    by (auto simp: validate_nonempty [OF ne assms(2)] entryTag_def)
qed

text \<open>C5, as the code has it, at a ledger whose second entry has no \<^verbatim>\<open>EcritureNum\<close>.\<close>

theorem required_field_reported_unnumbered:
  "1 < length unnumberedLedger \<and> ownPieceRefs unnumberedLedger \<and>
   (''EcritureNum'', EcritureNum) \<in> set requiredFields \<and>
   list_all isWhiteSpace (EcritureNum (unnumberedLedger ! 1)) \<and>
   (\<exists>r. validateFECCompliance unnumberedLedger = Inr r \<and> \<not> valid r \<and>
        \<lparr>type = ENTRY_INVALID, message = MissingField ''EcritureNum'', entry = Some ''Ligne 2''\<rparr>
          \<in> set (errors r))"
proof -
  have l: "1 < length unnumberedLedger" by code_simp
  have o: "ownPieceRefs unnumberedLedger" by code_simp
  have f: "(''EcritureNum'', EcritureNum) \<in> set requiredFields" by (simp add: requiredFields_def)
  have w: "list_all isWhiteSpace (EcritureNum (unnumberedLedger ! 1))" by code_simp
  have n: "EcritureNum (unnumberedLedger ! 1) = []" by code_simp
  have t: "''Ligne '' @ digitsOf (int 1 + 1) = ''Ligne 2''" by code_simp
  from required_field_reported [OF l o f w] n t show ?thesis
    using l o f w by auto
qed

lemma requiredFields_names:
  "map fst requiredFields =
     [''JournalCode'', ''EcritureNum'', ''EcritureDate'', ''CompteNum'', ''CompteLib'',
      ''PieceRef'', ''EcritureLib'']"
  by (simp add: requiredFields_def)

subsection \<open>The passes of the validator\<close>

lemma chronologyScan_sorted:
  "sorted (map fst (case prev of None \<Rightarrow> items | Some p \<Rightarrow> p # items)) \<Longrightarrow>
   chronologyScan prev items = []"
proof (induction prev items rule: chronologyScan.induct)
  case (1 prev)
  then show ?case by simp
next
  case (2 prev item rest)
  then show ?case
    by (cases prev) (auto simp: not_less [symmetric])
qed

lemma chronologyScan_type:
  "i \<in> set (chronologyScan prev items) \<Longrightarrow> type i = CHRONOLOGY_WARNING"
  by (induction prev items rule: chronologyScan.induct) (auto split: option.splits if_splits)

lemma localeCompare_digits:
  "list_all isDigit a \<Longrightarrow> list_all isDigit b \<Longrightarrow> localeCompare a b \<le> 0 \<longleftrightarrow> a \<le> b"
  by (auto simp: localeCompare_def)

lemma insertDated_digits:
  "list_all isDigit (fst a) \<Longrightarrow> \<forall>b \<in> set bs. list_all isDigit (fst b) \<Longrightarrow>
   insertDated a bs = insort_key fst a bs"
  by (induction bs) (auto simp: localeCompare_digits)

lemma sortedDates_digits:
  "\<forall>p \<in> set ps. list_all isDigit (fst p) \<Longrightarrow> foldr insertDated ps [] = sort_key fst ps"
proof (induction ps)
  case Nil
  show ?case by simp
next
  case (Cons p ps)
  then have "foldr insertDated ps [] = sort_key fst ps" by simp
  moreover from Cons.prems have "insertDated p (sort_key fst ps) = insort_key fst p (sort_key fst ps)"
    by (intro insertDated_digits) simp_all
  ultimately show ?case by (simp add: sort_key_def)
qed

text \<open>The chronology pass scans a list it has just sorted, so it finds no decrease: on
  a ledger whose dates are digit strings it never emits a warning.\<close>

lemma chronologyWarnings_none:
  assumes "list_all (\<lambda>e. list_all isDigit (EcritureDate e)) es"
  shows "chronologyWarnings es = []"
proof -
  from assms have "\<forall>p \<in> set (map (\<lambda>e. (EcritureDate e, EcritureNum e)) es). list_all isDigit (fst p)"
    by (auto simp: list_all_iff)
  then have "sortedDates es = sort_key fst (map (\<lambda>e. (EcritureDate e, EcritureNum e)) es)"
    unfolding sortedDates_def by (rule sortedDates_digits)
  then show ?thesis
    unfolding chronologyWarnings_def by (simp add: chronologyScan_sorted)
qed

lemma duplicateScan_count:
  "sorted xs \<Longrightarrow>
   length (filter (\<lambda>i. i = \<lparr>type = DUPLICATE_NUM, message = Duplicate v, entry = None\<rparr>)
             (duplicateScan xs)) = count_list xs v - 1"
proof (induction xs rule: duplicateScan.induct)
  case (1 a b rest)
  from "1.prems" have s: "sorted (b # rest)" and ab: "a \<le> b" by auto
  have absent: "count_list (b # rest) v = 0" if "a = v" "b \<noteq> v"
  proof -
    from that ab have "v < b" by auto
    with s have "\<forall>x \<in> set (b # rest). v < x" by auto
    then have "v \<notin> set (b # rest)" by auto
    then show ?thesis using count_list_0_iff by metis
  qed
  from "1.IH" [OF s] absent show ?case
    by (cases "a = v"; cases "b = v") auto
qed simp_all

lemma count_list_insort: "count_list (insort x xs) v = count_list (x # xs) v"
  by (induction xs) auto

lemma count_list_sort: "count_list (sort xs) v = count_list xs v"
  by (induction xs) (auto simp: count_list_insort)

lemma entryErrors_type: "i \<in> set (entryErrors es) \<Longrightarrow> type i = ENTRY_INVALID"
  by (auto simp: entryErrors_def entryIssues_def)

lemma balanceErrors_type: "i \<in> set (balanceErrors ps) \<Longrightarrow> type i = BALANCE_ERROR"
  by (auto simp: balanceErrors_def split: if_splits)

lemma duplicateErrors_type: "i \<in> set (duplicateErrors es) \<Longrightarrow> type i = DUPLICATE_NUM"
proof -
  have "i \<in> set (duplicateScan xs) \<Longrightarrow> type i = DUPLICATE_NUM" for xs
    by (induction xs rule: duplicateScan.induct) (auto split: if_splits)
  then show "i \<in> set (duplicateErrors es) \<Longrightarrow> type i = DUPLICATE_NUM"
    by (simp add: duplicateErrors_def)
qed

lemma filter_other_type:
  "\<forall>i \<in> set xs. type i \<noteq> type j \<Longrightarrow> filter (\<lambda>i. i = j) xs = []"
  by (auto simp: filter_empty_conv)

text \<open>When the validator completes, a number that occurs \<open>k \<ge> 1\<close> times in the ledger
  gets \<open>k - 1\<close> \<^verbatim>\<open>DUPLICATE_NUM\<close> errors (and a number that does not occur gets none).\<close>

lemma duplicates_reported:
  assumes "es \<noteq> []" and "ownPieceRefs es"
  shows "\<exists>r. validateFECCompliance es = Inr r \<and>
           (\<forall>v. length (filter (\<lambda>i. i = \<lparr>type = DUPLICATE_NUM, message = Duplicate v, entry = None\<rparr>)
                           (errors r))
                 = count_list (map EcritureNum es) v - 1)"
proof -
  have d: "length (filter (\<lambda>i. i = \<lparr>type = DUPLICATE_NUM, message = Duplicate v, entry = None\<rparr>)
                     (duplicateErrors es)) = count_list (map EcritureNum es) v - 1" for v
    unfolding duplicateErrors_def by (simp add: duplicateScan_count count_list_sort)
  have e: "filter (\<lambda>i. i = \<lparr>type = DUPLICATE_NUM, message = Duplicate v, entry = None\<rparr>)
             (entryErrors es) = []" for v
    by (rule filter_other_type) (auto dest: entryErrors_type)
  have b: "filter (\<lambda>i. i = \<lparr>type = DUPLICATE_NUM, message = Duplicate v, entry = None\<rparr>)
             (balanceErrors ps) = []" for v ps
    by (rule filter_other_type) (auto dest: balanceErrors_type)
  show ?thesis
    by (simp add: validate_nonempty [OF assms] d e b)
qed

text \<open>When the validator completes, the \<^verbatim>\<open>VAT_WARNING\<close>s are those of the entries on a
  445 account for which the first non-empty string among \<^verbatim>\<open>Debit\<close>, \<^verbatim>\<open>Credit\<close> (or \<^verbatim>\<open>0\<close>)
  reads as zero.\<close>

lemma vat_warning_iff:
  assumes "es \<noteq> []" and "ownPieceRefs es"
  shows "\<exists>r. validateFECCompliance es = Inr r \<and>
           (\<forall>i. i \<in> set (warnings r) \<and> type i = VAT_WARNING \<longleftrightarrow>
                (\<exists>e \<in> set es. startsWith (CompteNum e) ''445'' \<and>
                    parseFloat (if Debit e \<noteq> [] then Debit e
                                else if Credit e \<noteq> [] then Credit e else ''0'') = Fin 0 \<and>
                    i = \<lparr>type = VAT_WARNING, message = VatZero (CompteNum e),
                         entry = Some (EcritureNum e)\<rparr>))"
proof -
  have j: "i \<in> set (journalWarnings es) \<Longrightarrow> type i = UNKNOWN_JOURNAL" for i
    by (auto simp: journalWarnings_def split: if_splits)
  have v: "i \<in> set (vatWarnings es) \<longleftrightarrow>
             (\<exists>e \<in> set es. startsWith (CompteNum e) ''445'' \<and>
                    parseFloat (if Debit e \<noteq> [] then Debit e
                                else if Credit e \<noteq> [] then Credit e else ''0'') = Fin 0 \<and>
                    i = \<lparr>type = VAT_WARNING, message = VatZero (CompteNum e),
                         entry = Some (EcritureNum e)\<rparr>)" for i
    by (auto simp: vatWarnings_def Let_def startsWith_def split: if_splits)
  have c: "i \<in> set (chronologyWarnings es) \<Longrightarrow> type i = CHRONOLOGY_WARNING" for i
    unfolding chronologyWarnings_def by (rule chronologyScan_type)
  show ?thesis
    using j c by (auto simp: validate_nonempty [OF assms] v)
qed

lemma map_fst_retag:
  "map fst (map (\<lambda>(ref, t). if ref = k then (ref, f t) else (ref, t)) qs) = map fst qs"
  by (induction qs) auto

lemma updatePiece_keys_list:
  "map fst (updatePiece e ps) =
     (if PieceRef e \<in> set (map fst ps) then map fst ps else map fst ps @ [PieceRef e])"
  unfolding updatePiece_def by (auto simp: map_fst_retag simp del: set_map)

lemma updatePiece_keys:
  "set (map fst (updatePiece e ps)) = insert (PieceRef e) (set (map fst ps))"
  unfolding updatePiece_keys_list by auto

lemma updatePiece_distinct:
  "distinct (map fst ps) \<Longrightarrow> distinct (map fst (updatePiece e ps))"
  unfolding updatePiece_keys_list by auto

lemma map_of_updatePiece:
  "map_of (updatePiece e ps) ref =
     (if ref = PieceRef e
      then Some (addToPiece e (case map_of ps ref of None \<Rightarrow> \<lparr>debit = Fin 0, credit = Fin 0, entries = []\<rparr>
                                                    | Some t \<Rightarrow> t))
      else map_of ps ref)"
proof -
  have m: "map_of (map (\<lambda>(r, t). if r = k then (r, f t) else (r, t)) qs) ref =
             (if ref = k then map_option f (map_of qs ref) else map_of qs ref)"
    for k :: string and f :: "totals \<Rightarrow> totals" and qs
    by (induction qs) auto
  show ?thesis
  proof (cases "PieceRef e \<in> set (map fst ps)")
    case True
    then obtain t where "map_of ps (PieceRef e) = Some t"
      by (metis map_of_eq_None_iff not_Some_eq set_map)
    with True show ?thesis by (auto simp: updatePiece_def m)
  next
    case False
    then have "map_of ps (PieceRef e) = None"
      by (simp add: map_of_eq_None_iff)
    with False show ?thesis
      by (auto simp: updatePiece_def map_add_def split: option.splits)
  qed
qed

lemma fold_pieces:
  "set (map fst (foldl (\<lambda>ps e. updatePiece e ps) ps es)) = set (map fst ps) \<union> PieceRef ` set es"
  "distinct (map fst ps) \<Longrightarrow> distinct (map fst (foldl (\<lambda>ps e. updatePiece e ps) ps es))"
  "ref \<in> set (map fst ps) \<union> PieceRef ` set es \<Longrightarrow>
   map_of (foldl (\<lambda>ps e. updatePiece e ps) ps es) ref =
     Some (foldl (\<lambda>t e. addToPiece e t)
             (case map_of ps ref of None \<Rightarrow> \<lparr>debit = Fin 0, credit = Fin 0, entries = []\<rparr> | Some t \<Rightarrow> t)
             (filter (\<lambda>e. PieceRef e = ref) es))"
proof (induction es arbitrary: ps)
  case Nil
  {
    case 1 show ?case by simp
  next
    case 2 then show ?case by simp
  next
    case 3
    then obtain t where "map_of ps ref = Some t"
      by (metis Un_empty_right image_empty list.set(1) map_of_eq_None_iff not_Some_eq set_map)
    then show ?case by simp
  }
next
  case (Cons e es)
  {
    case 1 show ?case
      by (simp add: Cons.IH(1) updatePiece_keys del: set_map)
  next
    case 2 then show ?case
      by (simp add: Cons.IH(2) updatePiece_distinct)
  next
    case 3
    then have "ref \<in> set (map fst (updatePiece e ps)) \<union> PieceRef ` set es"
      by (auto simp: updatePiece_keys simp del: set_map)
    from Cons.IH(3) [OF this] show ?case
      by (simp add: map_of_updatePiece)
  }
qed

lemma totals_sums:
  "debit (foldl (\<lambda>t e. addToPiece e t) t0 xs) = foldl num_add (debit t0) (map (\<lambda>e. amountOf (Debit e)) xs)"
  "credit (foldl (\<lambda>t e. addToPiece e t) t0 xs) = foldl num_add (credit t0) (map (\<lambda>e. amountOf (Credit e)) xs)"
  by (induction xs arbitrary: t0) (simp_all add: addToPiece_def)

lemma set_objectEntries: "set (objectEntries ps) = set ps"
  by (auto simp: objectEntries_def)

lemma balanceErrors_iff:
  "(\<exists>i \<in> set (balanceErrors ps). type i = BALANCE_ERROR \<and> entry i = Some ref) \<longleftrightarrow>
   (\<exists>t. (ref, t) \<in> set ps \<and> num_gt (num_abs (num_sub (debit t) (credit t))) BALANCE_TOLERANCE)"
  by (auto simp: balanceErrors_def set_objectEntries split: if_splits) force

text \<open>When the validator completes, a piece gets a \<^verbatim>\<open>BALANCE_ERROR\<close> exactly when the
  absolute difference of its two Number totals is greater than the tolerance (which is
  never the case when a total is NaN).\<close>

lemma balance_error_iff:
  assumes "es \<noteq> []" and "ownPieceRefs es"
  shows "\<exists>r. validateFECCompliance es = Inr r \<and>
           (\<forall>ref. (\<exists>i \<in> set (errors r). type i = BALANCE_ERROR \<and> entry i = Some ref) \<longleftrightarrow>
                  (ref \<in> PieceRef ` set es \<and>
                   num_gt (num_abs (num_sub (debitSum ref es) (creditSum ref es))) BALANCE_TOLERANCE))"
proof -
  define ps where "ps = foldl (\<lambda>ps e. updatePiece e ps) [] es"
  have keys: "set (map fst ps) = PieceRef ` set es"
    unfolding ps_def by (simp add: fold_pieces(1) del: set_map)
  have dist: "distinct (map fst ps)"
    unfolding ps_def by (rule fold_pieces(2)) simp
  have tot: "map_of ps ref = Some (foldl (\<lambda>t e. addToPiece e t)
                \<lparr>debit = Fin 0, credit = Fin 0, entries = []\<rparr> (filter (\<lambda>e. PieceRef e = ref) es))"
    if "ref \<in> PieceRef ` set es" for ref
    unfolding ps_def using that by (subst fold_pieces(3)) simp_all
  have b: "(\<exists>i \<in> set (balanceErrors ps). type i = BALANCE_ERROR \<and> entry i = Some ref) \<longleftrightarrow>
           (ref \<in> PieceRef ` set es \<and>
            num_gt (num_abs (num_sub (debitSum ref es) (creditSum ref es))) BALANCE_TOLERANCE)" for ref
  proof (cases "ref \<in> PieceRef ` set es")
    case True
    have "(ref, t) \<in> set ps \<longleftrightarrow> map_of ps ref = Some t" for t
      using dist by simp
    with True show ?thesis
      by (simp add: balanceErrors_iff tot totals_sums debitSum_def creditSum_def)
  next
    case False
    with keys have "\<nexists>t. (ref, t) \<in> set ps" by force
    with False show ?thesis by (simp add: balanceErrors_iff)
  qed
  have e: "i \<in> set (entryErrors es) \<Longrightarrow> type i \<noteq> BALANCE_ERROR" for i
    by (auto dest: entryErrors_type)
  have d: "i \<in> set (duplicateErrors es) \<Longrightarrow> type i \<noteq> BALANCE_ERROR" for i
    by (auto dest: duplicateErrors_type)
  have "(\<exists>i \<in> set (entryErrors es @ balanceErrors ps @ duplicateErrors es).
            type i = BALANCE_ERROR \<and> entry i = Some ref) \<longleftrightarrow>
        (\<exists>i \<in> set (balanceErrors ps). type i = BALANCE_ERROR \<and> entry i = Some ref)" for ref
    using e d by auto
  then show ?thesis
    by (simp add: validate_nonempty [OF assms] ps_def [symmetric] b)
qed

subsection \<open>The validator on the sample ledgers\<close>

text \<open>
  C2, at a ledger that is not in date order. The sale is dated 20240116 and the customer
  entry after it 20240115; the report has no \<^verbatim>\<open>CHRONOLOGY_WARNING\<close> (no warning at all):
  the pass sorts the dates before it looks for a decrease.
\<close>

theorem chronology_pass_misses_decrease:
  "EcritureDate customer < EcritureDate lateSale \<and>
   validateFECCompliance [lateSale, customer] = Inr \<lparr>valid = True, errors = [], warnings = []\<rparr>"
  by (intro conjI; code_simp)

text \<open>
  C3, at a ledger whose only piece is named \<^verbatim>\<open>constructor\<close>. The piece is out of balance
  by 1000, yet no \<^verbatim>\<open>BALANCE_ERROR\<close> is emitted: the call ends with a \<^verbatim>\<open>TypeError\<close>.
\<close>

theorem balance_pass_throws_on_inherited_name:
  "num_gt (num_abs (num_sub (debitSum ''constructor'' constructorLedger)
                            (creditSum ''constructor'' constructorLedger))) BALANCE_TOLERANCE \<and>
   validateFECCompliance constructorLedger = Inl TypeError"
  by (intro conjI; code_simp)

text \<open>
  C8, at a ledger of two entries that share the number 1 and belong to the piece
  \<^verbatim>\<open>toString\<close>: no \<^verbatim>\<open>DUPLICATE_NUM\<close> error is emitted, the call ends with a \<^verbatim>\<open>TypeError\<close>
  in the balance pass.
\<close>

theorem duplicate_pass_not_reached:
  "map EcritureNum toStringLedger = [''1'', ''1''] \<and>
   validateFECCompliance toStringLedger = Inl TypeError"
  by (intro conjI; code_simp)

text \<open>
  C9, at a balanced sale with VAT. The entry on account 445710 carries a credit of 200.00
  and the debit \<^verbatim>\<open>0.00\<close> that \<^verbatim>\<open>parseFECFile\<close> stores for \<^verbatim>\<open>0,00\<close>; the non-empty string
  \<^verbatim>\<open>0.00\<close> is what \<^verbatim>\<open>entry.Debit || entry.Credit || 0\<close> selects, and a \<^verbatim>\<open>VAT_WARNING\<close> is
  emitted for an entry whose credit is not zero.
\<close>

theorem vat_warning_despite_credit:
  "startsWith (CompteNum vatLine) ''445'' \<and> amountOf (Credit vatLine) = Fin 200 \<and>
   validateFECCompliance vatLedger =
     Inr \<lparr>valid = True, errors = [],
          warnings = [\<lparr>type = VAT_WARNING, message = VatZero ''445710'', entry = Some ''3''\<rparr>]\<rparr>"
  by (intro conjI; code_simp)

text \<open>
  C4 fails as stated: two entries with a negative amount each (a debit of -5, a credit
  of -5) make a ledger that validates, with no error at all.
\<close>

theorem negative_amounts_validate:
  "num_gt (Fin 0) (amountOf (Debit (hd negativeLedger))) \<and>
   validateFECCompliance negativeLedger = Inr \<lparr>valid = True, errors = [], warnings = []\<rparr>"
  by (intro conjI; code_simp)

text \<open>
  C5 fails as stated: an entry with an empty \<^verbatim>\<open>JournalLib\<close> raises no error, the ledger
  validates.
\<close>

theorem empty_journal_label_validates:
  "JournalLib (hd unlabelledLedger) = [] \<and>
   validateFECCompliance unlabelledLedger = Inr \<lparr>valid = True, errors = [], warnings = []\<rparr>"
  by (intro conjI; code_simp)

subsection \<open>Writing and reading back the sample ledger\<close>

text \<open>
  C1 fails as stated: the balanced pair validates without error or warning, its amounts
  are already written with two decimals, and yet reading back the generated file does not
  give the ledger: the empty \<^verbatim>\<open>Montantdevise\<close> of each entry comes back as \<^verbatim>\<open>0.00\<close>.
\<close>

theorem roundtrip_changes_empty_amount:
  "validateFECCompliance [sale, customer] = Inr \<lparr>valid = True, errors = [], warnings = []\<rparr> \<and>
   generateFECFile [sale, customer] = Inr saleFile \<and>
   parseFECFile saleFile =
     Inr [sale\<lparr>Montantdevise := ''0.00''\<rparr>, customer\<lparr>Montantdevise := ''0.00''\<rparr>] \<and>
   Montantdevise sale = [] \<and>
   parseFECFile saleFile \<noteq> Inr [sale, customer]"
  by (intro conjI; code_simp)

end
